theory Spec2Isabelle
  imports Complex_Main "HOL-Library.AList"
begin

section \<open>Data model of the scheduler (src/app.js)\<close>

text \<open>
  Job identifiers and platform identifiers are JavaScript strings. A thrown
  \<^verbatim>\<open>Error\<close> is a value carrying its message.
\<close>

type_synonym jobId = string
type_synonym platform = string

datatype error = Error string

text \<open>
  The value of one entry of \<^verbatim>\<open>variables\<close> in a recurring descriptor: only
  \<^verbatim>\<open>Array.isArray(values)\<close> and the elements of an array are ever read.
\<close>

datatype jsvalue = Arr "string list" | NotArr

text \<open>An element of \<^verbatim>\<open>images\<close>: a string path, or some other JSON value.\<close>

datatype imageRef = ImagePath string | NonString

text \<open>
  A post or recurring descriptor of \<^verbatim>\<open>schedule.json\<close>. Every field may be
  missing (\<open>None\<close>), as in the parsed JSON object.
\<close>

record postConfig =
  post_id :: "string option"
  content :: "string option"
  post_file :: "string option"
  platforms :: "platform list option"
  images :: "imageRef list option"
  scheduledTime :: "string option"
  cronPattern :: "string option"
  timezone :: "string option"
  priority :: "string option"
  variables :: "(string \<times> jsvalue) list option"

text \<open>JavaScript truthiness of an optional string: missing and empty are falsy.\<close>

definition truthy :: "string option \<Rightarrow> bool" where
  "truthy v = (case v of None \<Rightarrow> False | Some s \<Rightarrow> s \<noteq> [])"

text \<open>
  The function a node-cron task calls when it fires: the closures of lines
  265-267, 298-300, 422-424 and 432-435 with the values they capture.
\<close>

datatype callback =
    ExecutePost jobId postConfig
  | ExecuteRecurringPost jobId postConfig
  | UpdateHealthStatus
  | LogCleanup

text \<open>
  A node-cron task object. The registry and the scheduler share it by
  reference, so tasks live in a store addressed by handle.
\<close>

record cronTask =
  expression :: string
  task_timezone :: "string option"
  task_callback :: callback
  running :: bool

datatype jobType = scheduled_post | recurring_post | maintenance

record registryEntry =
  job :: nat
  config :: "postConfig option"
  entry_type :: jobType

record activeEntry =
  startTime :: int
  active_config :: postConfig

text \<open>
  The fields of \<^verbatim>\<open>SocialSchedulerApp\<close> that scheduling and execution touch.
  \<^verbatim>\<open>activeJobs\<close> and \<^verbatim>\<open>cronJobs\<close> are JavaScript Maps: insertion-ordered, one
  entry per key; they are association lists updated with \<open>AList.update\<close> and
  \<open>AList.delete\<close>.
\<close>

record app =
  isShuttingDown :: bool
  activeJobs :: "(jobId \<times> activeEntry) list"
  cronJobs :: "(jobId \<times> registryEntry) list"
  tasks :: "cronTask list"

definition initial_app :: app where
  "initial_app = \<lparr>isShuttingDown = False, activeJobs = [], cronJobs = [], tasks = []\<rparr>"

text \<open>\<^verbatim>\<open>task.start()\<close> and \<^verbatim>\<open>task.stop()\<close> on the task behind a handle.\<close>

definition task_start :: "nat \<Rightarrow> cronTask list \<Rightarrow> cronTask list" where
  "task_start h ts = (if h < length ts then ts[h := (ts ! h)\<lparr>running := True\<rparr>] else ts)"

definition task_stop :: "nat \<Rightarrow> cronTask list \<Rightarrow> cronTask list" where
  "task_stop h ts = (if h < length ts then ts[h := (ts ! h)\<lparr>running := False\<rparr>] else ts)"

section \<open>Collaborators of the executor\<close>

record processedImage =
  processedPath :: "string option"

record platformContent =
  pc_content :: string
  pc_images :: "processedImage list"

record postData =
  pd_content :: string
  imagePath :: "string option"

record postResult =
  result_platform :: platform
  result_id :: string

text \<open>
  The runtime and the external calls. \<^verbatim>\<open>now\<close> is \<^verbatim>\<open>Date.now()\<close>;
  \<^verbatim>\<open>localOffset t\<close> is the offset from UTC, in minutes, of the time zone of the
  process at the instant \<open>t\<close> (what the local getters of \<^verbatim>\<open>Date\<close> use);
  \<^verbatim>\<open>zoneOffset z\<close> is the time zone database of the runtime: the offset
  function of the zone named \<open>z\<close>, \<open>None\<close> when there is no such zone;
  \<^verbatim>\<open>parseDate\<close> is the parser behind \<^verbatim>\<open>new Date(string)\<close>, \<open>None\<close> for an
  Invalid Date; \<^verbatim>\<open>cronValid e z\<close> says whether node-cron accepts the
  expression \<open>e\<close> with the time zone option \<open>z\<close> (it throws otherwise);
  \<^verbatim>\<open>defaultTimezone\<close> is \<^verbatim>\<open>schedulerConfig.timezone.default\<close>; \<^verbatim>\<open>math_random n\<close> is
  the result of the \<open>n\<close>-th call of \<^verbatim>\<open>Math.random()\<close>; \<^verbatim>\<open>validTimezones\<close> is
  \<^verbatim>\<open>moment.tz.names()\<close> and \<^verbatim>\<open>momentParse d z\<close> the instant that
  \<^verbatim>\<open>moment.tz(d, format, z)\<close> gives for the first supported format that
  parses \<open>d\<close>, \<open>None\<close> when none does. The calls of
  \<^verbatim>\<open>executePost\<close> may throw. The publish and processing calls also receive
  the number of the call within the pass, so that two calls with equal
  arguments may answer differently (the clients are stateful: rate limits,
  network).
\<close>

record collaborators =
  now :: int
  localOffset :: "int \<Rightarrow> int"
  zoneOffset :: "string \<Rightarrow> (int \<Rightarrow> int) option"
  parseDate :: "string \<Rightarrow> int option"
  cronValid :: "string \<Rightarrow> string \<Rightarrow> bool"
  defaultTimezone :: string
  math_random :: "nat \<Rightarrow> rat"
  validTimezones :: "string list"
  momentParse :: "string \<Rightarrow> string \<Rightarrow> int option"
  basename :: "string \<Rightarrow> string"
  readTextFile :: "string \<Rightarrow> error + string"
  processPlatformContent :: "nat \<Rightarrow> string option \<Rightarrow> imageRef list \<Rightarrow> platform \<Rightarrow> error + platformContent"
  postToPlatform :: "nat \<Rightarrow> platform \<Rightarrow> postData \<Rightarrow> error + postResult"

text \<open>One entry of \<^verbatim>\<open>results\<close>: \<^verbatim>\<open>{success: true, ...result}\<close> or \<^verbatim>\<open>{success: false, error}\<close>.\<close>

datatype outcome = Succeeded postResult | Failed string

fun success :: "outcome \<Rightarrow> bool" where
  "success (Succeeded r) = True"
| "success (Failed m) = False"

text \<open>
  What one call of \<^verbatim>\<open>executePost\<close> lets an observer see: the publish calls
  it made, in order, and the \<^verbatim>\<open>jobExecuted\<close> record it logged, from the end of
  the \<^verbatim>\<open>try\<close> block (\<open>Executed\<close>, with \<^verbatim>\<open>allSuccessful\<close> and the own
  properties of \<^verbatim>\<open>results\<close>) or from the outer \<^verbatim>\<open>catch\<close> (\<open>Faulted\<close>).
\<close>

datatype report = Executed bool "(platform \<times> outcome) list" | Faulted string

record execution =
  attempts :: "(platform \<times> postData) list"
  logged :: report

section \<open>The executor: executePost\<close>

text \<open>Lines 331-335: inline content, else the file's content when a file is named.\<close>

definition loadContent :: "collaborators \<Rightarrow> postConfig \<Rightarrow> error + string option" where
  "loadContent co cfg =
     (if truthy (post_file cfg) \<and> \<not> truthy (content cfg)
      then (case readTextFile co (basename co (the (post_file cfg))) of
              Inl e \<Rightarrow> Inl e
            | Inr text \<Rightarrow> Inr (Some text))
      else Inr (content cfg))"

text \<open>
  A plain JavaScript object used as a table from names to objects, as
  \<^verbatim>\<open>processedContent\<close> and \<^verbatim>\<open>results\<close> are: its own properties, and its
  prototype once one has been assigned. The assignment
  \<^verbatim>\<open>obj[key] = value\<close> adds or replaces an own property, except for the
  key \<^verbatim>\<open>__proto__\<close>: there it makes the value the prototype of the object and
  adds no own property. \<^verbatim>\<open>obj[key]\<close> reads the own property, and for
  \<^verbatim>\<open>__proto__\<close> the prototype. \<^verbatim>\<open>Object.values\<close> and the logger see the own
  properties only. The own properties are kept in the order of their
  insertion (JavaScript lists integer-like names first; nothing here depends
  on the order).
\<close>

record 'v jsobject =
  own :: "(string \<times> 'v) list"
  proto :: "'v option"

definition empty_object :: "'v jsobject" where
  "empty_object = \<lparr>own = [], proto = None\<rparr>"

definition js_set :: "string \<Rightarrow> 'v \<Rightarrow> 'v jsobject \<Rightarrow> 'v jsobject" where
  "js_set key v obj =
     (if key = ''__proto__'' then obj\<lparr>proto := Some v\<rparr>
      else obj\<lparr>own := AList.update key v (own obj)\<rparr>)"

text \<open>
  \<open>None\<close> stands for every value that is not one of the stored objects:
  \<^verbatim>\<open>undefined\<close>, or a member inherited from \<^verbatim>\<open>Object.prototype\<close>.
\<close>

definition js_get :: "'v jsobject \<Rightarrow> string \<Rightarrow> 'v option" where
  "js_get obj key = (if key = ''__proto__'' then proto obj else map_of (own obj) key)"

text \<open>
  \<^verbatim>\<open>contentProcessor.processContent\<close> (services/content-processor.js, 41-61):
  the platforms are processed in order into one object; the first failure is
  rethrown and nothing is returned.
\<close>

fun processContent_loop ::
  "collaborators \<Rightarrow> string option \<Rightarrow> imageRef list \<Rightarrow> platform list \<Rightarrow> nat \<Rightarrow>
   platformContent jsobject \<Rightarrow> error + platformContent jsobject" where
  "processContent_loop co c imgs [] n acc = Inr acc"
| "processContent_loop co c imgs (p # ps) n acc =
     (case processPlatformContent co n c imgs p of
        Inl e \<Rightarrow> Inl e
      | Inr pc \<Rightarrow> processContent_loop co c imgs ps (Suc n) (js_set p pc acc))"

definition processContent ::
  "collaborators \<Rightarrow> string option \<Rightarrow> imageRef list \<Rightarrow> platform list option \<Rightarrow>
   error + platformContent jsobject" where
  "processContent co c imgs ps =
     processContent_loop co c imgs
       (case ps of None \<Rightarrow> [''facebook'', ''instagram''] | Some l \<Rightarrow> l) 0 empty_object"

text \<open>
  The body of the loop over the platforms (lines 347-362): the inner
  \<^verbatim>\<open>try\<close> turns every failure into a \<open>Failed\<close> entry. The publish call is
  recorded as an attempt whenever it is reached. When
  \<^verbatim>\<open>processedContent[platform]\<close> is not a processed content, building
  \<^verbatim>\<open>postData\<close> throws before the publish call.
\<close>

definition postOne ::
  "collaborators \<Rightarrow> platformContent jsobject \<Rightarrow> nat \<Rightarrow> platform \<Rightarrow>
   (platform \<times> postData) list \<times> outcome" where
  "postOne co processed n p =
     (case js_get processed p of
        None \<Rightarrow> ([], Failed ''Cannot read properties of undefined'')
      | Some pc \<Rightarrow>
          (let pd = \<lparr>pd_content = pc_content pc,
                     imagePath = (case pc_images pc of [] \<Rightarrow> None | i # _ \<Rightarrow> processedPath i)\<rparr>
           in ([(p, pd)],
               (case postToPlatform co n p pd of
                  Inl (Error m) \<Rightarrow> Failed m
                | Inr r \<Rightarrow> Succeeded r))))"

fun postLoop ::
  "collaborators \<Rightarrow> platformContent jsobject \<Rightarrow> platform list \<Rightarrow> nat \<Rightarrow>
   (platform \<times> postData) list \<Rightarrow> outcome jsobject \<Rightarrow>
   (platform \<times> postData) list \<times> outcome jsobject" where
  "postLoop co processed [] n att results = (att, results)"
| "postLoop co processed (p # ps) n att results =
     (case postOne co processed n p of
        (a, r) \<Rightarrow> postLoop co processed ps (Suc n) (att @ a) (js_set p r results))"

text \<open>Lines 374-378: a one-time job is stopped and deleted from the registry.\<close>

definition removeOneTime :: "app \<Rightarrow> jobId \<Rightarrow> app" where
  "removeOneTime s jobId =
     (case map_of (cronJobs s) jobId of
        None \<Rightarrow> s
      | Some e \<Rightarrow>
          (if entry_type e = scheduled_post
           then s\<lparr>tasks := task_stop (job e) (tasks s),
                  cronJobs := AList.delete jobId (cronJobs s)\<rparr>
           else s))"

text \<open>
  The \<^verbatim>\<open>try\<close> block: the pass over the platforms (lines 327-372), which does
  not touch the application state, and then the removal of a one-time job
  (lines 374-378). \<open>Inl\<close> is an exception that reaches the outer \<^verbatim>\<open>catch\<close>;
  nothing has been published and the state is untouched then, since every
  failure after the first publish call is caught inside the loop. A missing
  \<^verbatim>\<open>platforms\<close> makes \<^verbatim>\<open>for ... of\<close> throw.
\<close>

definition executePost_pass :: "collaborators \<Rightarrow> postConfig \<Rightarrow> error + execution" where
  "executePost_pass co cfg =
     (case loadContent co cfg of
        Inl e \<Rightarrow> Inl e
      | Inr c \<Rightarrow>
         (case processContent co c (case images cfg of None \<Rightarrow> [] | Some l \<Rightarrow> l) (platforms cfg) of
            Inl e \<Rightarrow> Inl e
          | Inr processed \<Rightarrow>
             (case platforms cfg of
                None \<Rightarrow> Inl (Error ''postConfig.platforms is not iterable'')
              | Some ps \<Rightarrow>
                 (case postLoop co processed ps 0 [] empty_object of
                    (att, results) \<Rightarrow>
                      Inr \<lparr>attempts = att,
                           logged = Executed (list_all success (map snd (own results)))
                                             (own results)\<rparr>))))"

definition executePost_try ::
  "collaborators \<Rightarrow> app \<Rightarrow> jobId \<Rightarrow> postConfig \<Rightarrow> error + (app \<times> execution)" where
  "executePost_try co s jobId cfg =
     (case executePost_pass co cfg of
        Inl e \<Rightarrow> Inl e
      | Inr ex \<Rightarrow> Inr (removeOneTime s jobId, ex))"

text \<open>
  Line 325, the synchronous start of an execution, and lines 327-388, what it
  does to the state when it completes: \<^verbatim>\<open>try\<close>, \<^verbatim>\<open>catch\<close>, and the
  \<^verbatim>\<open>finally\<close> that deletes the identifier from the active set. All writes of
  the second part happen after the last \<^verbatim>\<open>await\<close>, so it is one atomic step
  on the state it finds.
\<close>

definition executePost_begin :: "collaborators \<Rightarrow> app \<Rightarrow> jobId \<Rightarrow> postConfig \<Rightarrow> app" where
  "executePost_begin co s jobId cfg =
     s\<lparr>activeJobs :=
         AList.update jobId \<lparr>startTime = now co, active_config = cfg\<rparr> (activeJobs s)\<rparr>"

definition executePost_complete ::
  "collaborators \<Rightarrow> app \<Rightarrow> jobId \<Rightarrow> postConfig \<Rightarrow> app \<times> execution" where
  "executePost_complete co s jobId cfg =
     (case (case executePost_try co s jobId cfg of
              Inl (Error m) \<Rightarrow> (s, \<lparr>attempts = [], logged = Faulted m\<rparr>)
            | Inr r \<Rightarrow> r) of
        (s', ex) \<Rightarrow> (s'\<lparr>activeJobs := AList.delete jobId (activeJobs s')\<rparr>, ex))"

text \<open>
  \<^verbatim>\<open>executePost\<close> run without interruption. \<open>None\<close> is the short-circuit of
  line 322.
\<close>

definition executePost ::
  "collaborators \<Rightarrow> app \<Rightarrow> jobId \<Rightarrow> postConfig \<Rightarrow> app \<times> execution option" where
  "executePost co s jobId cfg =
     (if isShuttingDown s then (s, None)
      else (case executePost_complete co (executePost_begin co s jobId cfg) jobId cfg of
              (s', ex) \<Rightarrow> (s', Some ex)))"

section \<open>The trigger converter: dateToCron\<close>

text \<open>
  A JavaScript \<^verbatim>\<open>Date\<close> is an instant in milliseconds since the epoch, or
  the Invalid Date; a JavaScript number is an integer here, or \<^verbatim>\<open>NaN\<close>.
\<close>

datatype jsdate = Instant int | InvalidDate

datatype jsnum = Num int | NaN

text \<open>\<^verbatim>\<open>new Date(postConfig.scheduledTime)\<close>; a missing time gives the Invalid Date.\<close>

definition newDate :: "collaborators \<Rightarrow> string option \<Rightarrow> jsdate" where
  "newDate co v =
     (case v of
        None \<Rightarrow> InvalidDate
      | Some str \<Rightarrow> (case parseDate co str of None \<Rightarrow> InvalidDate | Some t \<Rightarrow> Instant t))"

text \<open>
  The calendar date (year, month 1-12, day 1-31) of a day number counted
  from 1970-01-01, in the proleptic Gregorian calendar.
\<close>

definition civil_from_days :: "int \<Rightarrow> int \<times> int \<times> int" where
  "civil_from_days days =
     (let z = days + 719468;
          era = z div 146097;
          doe = z - era * 146097;
          yoe = (doe - doe div 1460 + doe div 36524 - doe div 146096) div 365;
          doy = doe - (365 * yoe + yoe div 4 - yoe div 100);
          mp = (5 * doy + 2) div 153;
          d = doy - (153 * mp + 2) div 5 + 1;
          m = (if mp < 10 then mp + 3 else mp - 9);
          y = yoe + era * 400
      in (if m \<le> 2 then y + 1 else y, m, d))"

text \<open>Minutes since the epoch on the local clock of a time zone given by its offset.\<close>

definition localMinutes :: "(int \<Rightarrow> int) \<Rightarrow> int \<Rightarrow> int" where
  "localMinutes off t = t div 60000 + off t"

text \<open>
  The four local fields of an instant in a zone: minute, hour, day of the
  month, month (1-12).
\<close>

definition localFields :: "(int \<Rightarrow> int) \<Rightarrow> int \<Rightarrow> int \<times> int \<times> int \<times> int" where
  "localFields off t =
     (let lm = localMinutes off t
      in (case civil_from_days (lm div 1440) of
            (y, m, d) \<Rightarrow> (lm mod 60, (lm div 60) mod 24, d, m)))"

text \<open>
  The getters of \<^verbatim>\<open>Date\<close> that \<^verbatim>\<open>dateToCron\<close> calls. They read the local
  time of the process; on the Invalid Date they return \<^verbatim>\<open>NaN\<close>.
\<close>

definition getMinutes :: "collaborators \<Rightarrow> jsdate \<Rightarrow> jsnum" where
  "getMinutes co d =
     (case d of InvalidDate \<Rightarrow> NaN
      | Instant t \<Rightarrow> (case localFields (localOffset co) t of (mi, h, dd, mo) \<Rightarrow> Num mi))"

definition getHours :: "collaborators \<Rightarrow> jsdate \<Rightarrow> jsnum" where
  "getHours co d =
     (case d of InvalidDate \<Rightarrow> NaN
      | Instant t \<Rightarrow> (case localFields (localOffset co) t of (mi, h, dd, mo) \<Rightarrow> Num h))"

definition getDate :: "collaborators \<Rightarrow> jsdate \<Rightarrow> jsnum" where
  "getDate co d =
     (case d of InvalidDate \<Rightarrow> NaN
      | Instant t \<Rightarrow> (case localFields (localOffset co) t of (mi, h, dd, mo) \<Rightarrow> Num dd))"

definition getMonth :: "collaborators \<Rightarrow> jsdate \<Rightarrow> jsnum" where
  "getMonth co d =
     (case d of InvalidDate \<Rightarrow> NaN
      | Instant t \<Rightarrow> (case localFields (localOffset co) t of (mi, h, dd, mo) \<Rightarrow> Num (mo - 1)))"

fun jsplus :: "jsnum \<Rightarrow> int \<Rightarrow> jsnum" where
  "jsplus (Num a) b = Num (a + b)"
| "jsplus NaN b = NaN"

text \<open>A number inside a template literal: decimal digits, a sign, or \<^verbatim>\<open>NaN\<close>.\<close>

definition digit_char :: "int \<Rightarrow> char" where
  "digit_char n = ''0123456789'' ! nat (n mod 10)"

function show_digits :: "int \<Rightarrow> string" where
  "show_digits n = (if n < 10 then [digit_char n] else show_digits (n div 10) @ [digit_char n])"
  by pat_completeness auto
termination
  by (relation "measure nat") auto

declare show_digits.simps [simp del]

definition show_int :: "int \<Rightarrow> string" where
  "show_int i = (if i < 0 then CHR ''-'' # show_digits (- i) else show_digits i)"

fun show_jsnum :: "jsnum \<Rightarrow> string" where
  "show_jsnum (Num i) = show_int i"
| "show_jsnum NaN = ''NaN''"

text \<open>
  \<^verbatim>\<open>dateToCron(date, timezone = 'UTC')\<close>, lines 495-503. The body never reads
  \<^verbatim>\<open>timezone\<close>, and it has no \<^verbatim>\<open>throw\<close>.
\<close>

definition dateToCron :: "collaborators \<Rightarrow> jsdate \<Rightarrow> string option \<Rightarrow> string" where
  "dateToCron co date tz =
     (let minute = getMinutes co date;
          hour = getHours co date;
          day = getDate co date;
          month = jsplus (getMonth co date) 1
      in show_jsnum minute @ '' '' @ show_jsnum hour @ '' '' @ show_jsnum day @ '' ''
         @ show_jsnum month @ '' *'')"


section \<open>The scheduler: schedulePost and scheduleRecurringPost\<close>

text \<open>\<^verbatim>\<open>a || b\<close> on an optional string and a default.\<close>

definition or_else :: "string option \<Rightarrow> string \<Rightarrow> string" where
  "or_else v d = (if truthy v then the v else d)"

text \<open>A missing value inside a template literal prints as \<^verbatim>\<open>undefined\<close>.\<close>

definition show_opt :: "string option \<Rightarrow> string" where
  "show_opt v = (case v of None \<Rightarrow> ''undefined'' | Some str \<Rightarrow> str)"

text \<open>
  \<^verbatim>\<open>cron.schedule(expression, callback, {scheduled: false, timezone})\<close>
  followed by \<^verbatim>\<open>cronJobs.set\<close> and \<^verbatim>\<open>start()\<close>: the common part of lines
  265-278 and 298-311. A new task object is created on every call; when
  node-cron rejects the expression the \<^verbatim>\<open>catch\<close> logs and nothing changes.
\<close>

definition arm ::
  "collaborators \<Rightarrow> app \<Rightarrow> jobId \<Rightarrow> string \<Rightarrow> callback \<Rightarrow> postConfig \<Rightarrow> jobType \<Rightarrow> app" where
  "arm co s jobId expr cb cfg ty =
     (let zone = or_else (timezone cfg) (defaultTimezone co)
      in if \<not> cronValid co expr zone then s
         else
           (let h = length (tasks s);
                cronJob = \<lparr>expression = expr, task_timezone = Some zone,
                           task_callback = cb, running = False\<rparr>;
                s1 = s\<lparr>tasks := tasks s @ [cronJob]\<rparr>;
                s2 = s1\<lparr>cronJobs :=
                         AList.update jobId \<lparr>job = h, config = Some cfg, entry_type = ty\<rparr>
                           (cronJobs s1)\<rparr>
            in s2\<lparr>tasks := task_start h (tasks s2)\<rparr>))"

definition post_jobId :: "collaborators \<Rightarrow> postConfig \<Rightarrow> jobId" where
  "post_jobId co cfg = ''post_'' @ or_else (post_id cfg) (show_int (now co))"

definition schedulePost :: "collaborators \<Rightarrow> app \<Rightarrow> postConfig \<Rightarrow> app" where
  "schedulePost co s cfg =
     (let jobId = post_jobId co cfg;
          scheduledTime = newDate co (scheduledTime cfg);
          cronExpression = dateToCron co scheduledTime (timezone cfg)
      in arm co s jobId cronExpression (ExecutePost jobId cfg) cfg scheduled_post)"

text \<open>
  Lines 288-319. A missing \<^verbatim>\<open>cronPattern\<close> makes \<^verbatim>\<open>cron.schedule\<close> throw,
  which the \<^verbatim>\<open>catch\<close> logs.
\<close>

definition scheduleRecurringPost :: "collaborators \<Rightarrow> app \<Rightarrow> postConfig \<Rightarrow> app" where
  "scheduleRecurringPost co s cfg =
     (let jobId = ''recurring_'' @ show_opt (post_id cfg)
      in (case cronPattern cfg of
            None \<Rightarrow> s
          | Some pat \<Rightarrow> arm co s jobId pat (ExecuteRecurringPost jobId cfg) cfg recurring_post))"

section \<open>Recurring posts: processTemplate and executeRecurringPost\<close>

text \<open>
  \<^verbatim>\<open>String.prototype.replace(pattern, replacement)\<close> with a string pattern:
  the first occurrence of the pattern is found, the replacement text is
  expanded (\<^verbatim>\<open>$$\<close>, \<^verbatim>\<open>$&\<close>, the text before and the text after the match;
  there are no capture groups), and the result is the text before, the
  expansion and the text after. Without an occurrence the string is returned
  as it is.
\<close>

fun starts_with :: "string \<Rightarrow> string \<Rightarrow> bool" where
  "starts_with [] str = True"
| "starts_with (p # ps) [] = False"
| "starts_with (p # ps) (c # cs) = (p = c \<and> starts_with ps cs)"

fun split_at_first :: "string \<Rightarrow> string \<Rightarrow> (string \<times> string) option" where
  "split_at_first pat [] = (if pat = [] then Some ([], []) else None)"
| "split_at_first pat (c # cs) =
     (if starts_with pat (c # cs) then Some ([], drop (length pat) (c # cs))
      else (case split_at_first pat cs of
              None \<Rightarrow> None
            | Some (before, after) \<Rightarrow> Some (c # before, after)))"

fun GetSubstitution :: "string \<Rightarrow> string \<Rightarrow> string \<Rightarrow> string \<Rightarrow> string" where
  "GetSubstitution matched before after [] = []"
| "GetSubstitution matched before after [c] = [c]"
| "GetSubstitution matched before after (c # d # rest) =
     (if c = CHR ''$'' then
        (if d = CHR ''$'' then CHR ''$'' # GetSubstitution matched before after rest
         else if d = CHR ''&'' then matched @ GetSubstitution matched before after rest
         else if d = CHR 0x60 then before @ GetSubstitution matched before after rest
         else if d = CHR 0x27 then after @ GetSubstitution matched before after rest
         else c # GetSubstitution matched before after (d # rest))
      else c # GetSubstitution matched before after (d # rest))"

text \<open>
  A replacement text holds a pattern when somewhere in it a \<^verbatim>\<open>$\<close> is followed
  by \<^verbatim>\<open>$\<close>, \<^verbatim>\<open>&\<close>, a backquote or an apostrophe. Any other \<^verbatim>\<open>$\<close>, as in
  \<^verbatim>\<open>$5\<close>, is ordinary text.
\<close>

fun has_replacement_pattern :: "string \<Rightarrow> bool" where
  "has_replacement_pattern [] = False"
| "has_replacement_pattern [c] = False"
| "has_replacement_pattern (c # d # rest) =
     ((c = CHR ''$'' \<and> (d = CHR ''$'' \<or> d = CHR ''&'' \<or> d = CHR 0x60 \<or> d = CHR 0x27))
      \<or> has_replacement_pattern (d # rest))"

definition js_replace :: "string \<Rightarrow> string \<Rightarrow> string \<Rightarrow> string" where
  "js_replace str pat replacement =
     (case split_at_first pat str of
        None \<Rightarrow> str
      | Some (before, after) \<Rightarrow> before @ GetSubstitution pat before after replacement @ after)"

text \<open>
  \<^verbatim>\<open>values[Math.floor(Math.random() * values.length)]\<close>: an index outside the
  array reads \<^verbatim>\<open>undefined\<close>.
\<close>

definition pick :: "rat \<Rightarrow> string list \<Rightarrow> string option" where
  "pick u vs =
     (let i = \<lfloor>u * of_nat (length vs)\<rfloor>
      in if 0 \<le> i \<and> nat i < length vs then Some (vs ! nat i) else None)"

definition placeholder :: "string \<Rightarrow> string" where
  "placeholder key = ''{'' @ key @ ''}''"

text \<open>
  \<^verbatim>\<open>processTemplate(content, variables)\<close>, lines 407-418. The variables are
  the entries of the object in the order of \<^verbatim>\<open>Object.entries\<close>; \<open>n\<close> counts
  the calls of \<^verbatim>\<open>Math.random()\<close>. A missing content makes \<^verbatim>\<open>replace\<close>
  throw; a missing replacement is converted to the text \<^verbatim>\<open>undefined\<close>.
\<close>

fun processTemplate_loop ::
  "collaborators \<Rightarrow> nat \<Rightarrow> string option \<Rightarrow> (string \<times> jsvalue) list \<Rightarrow> error + string option" where
  "processTemplate_loop co n processedContent [] = Inr processedContent"
| "processTemplate_loop co n processedContent ((key, NotArr) # rest) =
     processTemplate_loop co n processedContent rest"
| "processTemplate_loop co n processedContent ((key, Arr vs) # rest) =
     (let randomValue = pick (math_random co n) vs
      in (case processedContent of
            None \<Rightarrow> Inl (Error ''Cannot read properties of undefined (reading 'replace')'')
          | Some str \<Rightarrow>
              processTemplate_loop co (Suc n)
                (Some (js_replace str (placeholder key) (show_opt randomValue))) rest))"

definition processTemplate ::
  "collaborators \<Rightarrow> string option \<Rightarrow> (string \<times> jsvalue) list \<Rightarrow> error + string option" where
  "processTemplate co template vars = processTemplate_loop co 0 template vars"

text \<open>
  \<^verbatim>\<open>executeRecurringPost\<close>, lines 391-405. It has no \<^verbatim>\<open>try\<close>: an exception
  of \<^verbatim>\<open>processTemplate\<close> leaves the function.
\<close>

definition executeRecurringPost ::
  "collaborators \<Rightarrow> app \<Rightarrow> jobId \<Rightarrow> postConfig \<Rightarrow> error + app \<times> execution option" where
  "executeRecurringPost co s jobId recurringConfig =
     (case (case variables recurringConfig of
              None \<Rightarrow> Inr (content recurringConfig)
            | Some vars \<Rightarrow> processTemplate co (content recurringConfig) vars) of
        Inl e \<Rightarrow> Inl e
      | Inr c \<Rightarrow>
          Inr (executePost co s (jobId @ ''_'' @ show_int (now co))
                 (recurringConfig\<lparr>content := c,
                                   post_id := Some (show_opt (post_id recurringConfig) @ ''_''
                                                    @ show_int (now co))\<rparr>)))"

text \<open>What a task does to the application when it fires.\<close>

definition fire :: "collaborators \<Rightarrow> app \<Rightarrow> callback \<Rightarrow> error + app \<times> execution option" where
  "fire co s cb =
     (case cb of
        ExecutePost jobId cfg \<Rightarrow> Inr (executePost co s jobId cfg)
      | ExecuteRecurringPost jobId cfg \<Rightarrow> executeRecurringPost co s jobId cfg
      | UpdateHealthStatus \<Rightarrow> Inr (s, None)
      | LogCleanup \<Rightarrow> Inr (s, None))"

section \<open>Validation of the schedule document\<close>

text \<open>
  The parsed \<^verbatim>\<open>schedule.json\<close>. \<^verbatim>\<open>posts\<close> is \<open>None\<close> when the field is not
  an array. A number of the settings is a JSON number or some other truthy
  value.
\<close>

datatype jsonnum = JNumber rat | JOther

record settings =
  settings_timezone :: "string option"
  retryAttempts :: "jsonnum option"
  retryDelay :: "jsonnum option"

record scheduleDocument =
  posts :: "postConfig list option"
  recurring :: "postConfig list option"
  doc_settings :: "settings option"

text \<open>\<^verbatim>\<open>errors.join(sep)\<close>.\<close>

fun join :: "string \<Rightarrow> string list \<Rightarrow> string" where
  "join sep [] = []"
| "join sep [x] = x"
| "join sep (x # y # ys) = x @ sep @ join sep (y # ys)"

text \<open>\<^verbatim>\<open>platformLimits[platform].maxTextLength\<close> (validators.js, 7-30).\<close>

definition maxTextLength :: "platform \<Rightarrow> int option" where
  "maxTextLength p =
     (if p = ''facebook'' then Some 63206 else if p = ''instagram'' then Some 2200 else None)"

text \<open>
  The validators return their verdict and their error text. Warnings are
  collected by the source as well; they never enter \<^verbatim>\<open>isValid\<close> and are
  left out. The messages are written without the quotation marks that the
  source puts around field names.
\<close>

text \<open>
  \<^verbatim>\<open>platformLimits[platform]\<close> as the lookup in a plain object answers it:
  the limits of facebook and instagram, a member inherited from
  \<^verbatim>\<open>Object.prototype\<close> (truthy, and without a \<^verbatim>\<open>maxTextLength\<close>), or
  \<^verbatim>\<open>undefined\<close>.
\<close>

definition object_prototype_names :: "string list" where
  "object_prototype_names =
     [''constructor'', ''__defineGetter__'', ''__defineSetter__'', ''hasOwnProperty'',
      ''__lookupGetter__'', ''__lookupSetter__'', ''isPrototypeOf'', ''propertyIsEnumerable'',
      ''toString'', ''valueOf'', ''__proto__'', ''toLocaleString'']"

datatype limits = Limits int | Inherited

definition platformLimits :: "platform \<Rightarrow> limits option" where
  "platformLimits p =
     (case maxTextLength p of
        Some limit \<Rightarrow> Some (Limits limit)
      | None \<Rightarrow> (if p \<in> set object_prototype_names then Some Inherited else None))"

text \<open>
  \<^verbatim>\<open>validateTextContent(content, platform)\<close>, lines 241-291. Against an
  inherited member every comparison with the missing limit is false, so no
  error is raised.
\<close>

definition validateTextContent :: "string \<Rightarrow> platform \<Rightarrow> bool \<times> string" where
  "validateTextContent c p =
     (if c = [] then (False, ''Content must be a non-empty string'')
      else (case platformLimits p of
              None \<Rightarrow> (False, ''Unsupported platform: '' @ p)
            | Some Inherited \<Rightarrow> (True, [])
            | Some (Limits limit) \<Rightarrow>
                (let errors = (if int (length c) > limit
                               then [''Content too long ('' @ show_int (int (length c)) @ ''/''
                                     @ show_int limit @ '' characters)'']
                               else [])
                 in (errors = [], join ''; '' errors))))"

text \<open>\<^verbatim>\<open>validateDateTime(dateTime, timezone = 'UTC')\<close>, lines 294-351.\<close>

definition validateDateTime :: "collaborators \<Rightarrow> string option \<Rightarrow> string option \<Rightarrow> bool \<times> string" where
  "validateDateTime co dateTime tzarg =
     (let tz = (case tzarg of None \<Rightarrow> Some ''UTC'' | Some z \<Rightarrow> Some z)
      in if \<not> truthy dateTime then (False, ''DateTime is required'')
         else
           (let errors1 = (if truthy tz \<and> the tz \<notin> set (validTimezones co)
                           then [''Invalid timezone: '' @ the tz] else [])
            in (case momentParse co (the dateTime) (or_else tz ''UTC'') of
                  None \<Rightarrow> (False, ''Invalid datetime format. Supported formats: YYYY-MM-DD HH:mm:ss, YYYY-MM-DDTHH:mm:ss, YYYY-MM-DDTHH:mm:ssZ'')
                | Some momentDate \<Rightarrow>
                    (let errors2 = errors1 @ (if momentDate < now co
                                              then [''Scheduled time must be in the future'']
                                              else [])
                     in (errors2 = [], join ''; '' errors2)))))"

text \<open>\<^verbatim>\<open>validatePlatforms(platforms)\<close>, lines 354-380, on an array.\<close>

definition validatePlatforms :: "platform list \<Rightarrow> bool \<times> string" where
  "validatePlatforms ps =
     (let validPlatforms = [''facebook'', ''instagram'']
      in if length ps = 0 then (False, ''At least one platform must be specified'')
         else
           (let invalidPlatforms = filter (\<lambda>p. p \<notin> set validPlatforms) ps
            in if length invalidPlatforms > 0
               then (False, ''Invalid platforms: '' @ join '', '' invalidPlatforms
                            @ ''. Valid platforms: '' @ join '', '' validPlatforms)
               else (True, [])))"

text \<open>
  \<^verbatim>\<open>validateSchedulePost(post, index)\<close>, lines 88-145: the errors, in the
  order in which they are pushed.
\<close>

definition imageErrors :: "string \<Rightarrow> imageRef list \<Rightarrow> string list" where
  "imageErrors idx imgs =
     concat (map (\<lambda>(imageIndex, image).
                    (case image of
                       ImagePath path \<Rightarrow> []
                     | NonString \<Rightarrow> [''Post '' @ idx @ '', Image '' @ show_int (int imageIndex)
                                     @ '': Must be a string path'']))
                 (enumerate 0 imgs))"

definition contentErrors :: "string \<Rightarrow> string \<Rightarrow> platform list \<Rightarrow> string list" where
  "contentErrors idx c ps =
     concat (map (\<lambda>p. (case validateTextContent c p of
                          (ok, err) \<Rightarrow>
                            (if \<not> ok then [''Post '' @ idx @ '', Platform '' @ p @ '': '' @ err]
                             else [])))
                 ps)"

definition validateSchedulePost :: "collaborators \<Rightarrow> postConfig \<Rightarrow> nat \<Rightarrow> string list" where
  "validateSchedulePost co post index =
     (let idx = show_int (int index)
      in (if \<not> truthy (content post) \<and> \<not> truthy (post_file post)
          then [''Post '' @ idx @ '': Must have either content or file specified''] else [])
       @ (if \<not> truthy (scheduledTime post)
          then [''Post '' @ idx @ '': Missing scheduledTime'']
          else (case validateDateTime co (scheduledTime post) (timezone post) of
                  (ok, err) \<Rightarrow> (if \<not> ok then [''Post '' @ idx @ '': '' @ err] else [])))
       @ (case platforms post of
            None \<Rightarrow> [''Post '' @ idx @ '': Must specify at least one platform'']
          | Some ps \<Rightarrow>
              (if length ps = 0 then [''Post '' @ idx @ '': Must specify at least one platform'']
               else (case validatePlatforms ps of
                       (ok, err) \<Rightarrow> (if \<not> ok then [''Post '' @ idx @ '': '' @ err] else []))))
       @ (case images post of None \<Rightarrow> [] | Some imgs \<Rightarrow> imageErrors idx imgs)
       @ (if truthy (content post)
          then (case platforms post of
                  None \<Rightarrow> []
                | Some ps \<Rightarrow> contentErrors idx (the (content post)) ps)
          else []))"

text \<open>\<^verbatim>\<open>validateScheduleSettings(settings)\<close>, lines 147-164.\<close>

definition bad_number :: "jsonnum option \<Rightarrow> bool" where
  "bad_number v =
     (case v of
        None \<Rightarrow> False
      | Some JOther \<Rightarrow> True
      | Some (JNumber x) \<Rightarrow> x \<noteq> 0 \<and> x < 0)"

definition validateScheduleSettings :: "collaborators \<Rightarrow> settings \<Rightarrow> string list" where
  "validateScheduleSettings co st =
     (if truthy (settings_timezone st) \<and> the (settings_timezone st) \<notin> set (validTimezones co)
      then [''Invalid timezone: '' @ the (settings_timezone st)] else [])
     @ (if bad_number (retryAttempts st) then [''retryAttempts must be a non-negative number''] else [])
     @ (if bad_number (retryDelay st) then [''retryDelay must be a non-negative number''] else [])"

text \<open>
  \<^verbatim>\<open>validateScheduleConfig(config)\<close> of validators.js, lines 43-86:
  \<^verbatim>\<open>isValid\<close> and the errors. Only \<^verbatim>\<open>config.posts\<close> and
  \<^verbatim>\<open>config.settings\<close> are read.
\<close>

definition validateScheduleConfig :: "collaborators \<Rightarrow> scheduleDocument \<Rightarrow> bool \<times> string list" where
  "validateScheduleConfig co cfg =
     (case posts cfg of
        None \<Rightarrow> (False, [''Schedule config must contain a posts array''])
      | Some ps \<Rightarrow>
          (let errors = concat (map (\<lambda>(index, post). validateSchedulePost co post index)
                                    (enumerate 0 ps))
                        @ (case doc_settings cfg of
                             None \<Rightarrow> []
                           | Some st \<Rightarrow> validateScheduleSettings co st)
           in (length errors = 0, errors)))"

text \<open>
  \<^verbatim>\<open>validateScheduleConfig(config)\<close> of services/file-reader.js, lines
  186-218, which \<^verbatim>\<open>readScheduleConfig\<close> runs on the parsed file: it throws at
  the first defect.
\<close>

fun fileReader_posts :: "postConfig list \<Rightarrow> nat \<Rightarrow> error + unit" where
  "fileReader_posts [] i = Inr ()"
| "fileReader_posts (post # rest) i =
     (if \<not> truthy (content post) \<and> \<not> truthy (post_file post)
      then Inl (Error (''Post '' @ show_int (int i) @ '': Must have either content or file specified''))
      else if \<not> truthy (scheduledTime post)
      then Inl (Error (''Post '' @ show_int (int i) @ '': Missing scheduledTime''))
      else (case platforms post of
              None \<Rightarrow> Inl (Error (''Post '' @ show_int (int i) @ '': Must specify at least one platform''))
            | Some ps \<Rightarrow>
                (if length ps = 0
                 then Inl (Error (''Post '' @ show_int (int i) @ '': Must specify at least one platform''))
                 else
                   (let invalidPlatforms = filter (\<lambda>p. p \<notin> set [''facebook'', ''instagram'']) ps
                    in if length invalidPlatforms > 0
                       then Inl (Error (''Post '' @ show_int (int i) @ '': Invalid platforms: ''
                                        @ join '', '' invalidPlatforms))
                       else fileReader_posts rest (Suc i)))))"

definition fileReader_validateScheduleConfig :: "scheduleDocument \<Rightarrow> error + unit" where
  "fileReader_validateScheduleConfig cfg =
     (case posts cfg of
        None \<Rightarrow> Inl (Error ''Schedule config must contain a posts array'')
      | Some ps \<Rightarrow> fileReader_posts ps 0)"

text \<open>
  \<^verbatim>\<open>loadScheduleConfig\<close>, app.js 194-224, after the file has been read and
  parsed: \<open>Inl\<close> aborts the start, \<open>Inr\<close> is the document stored in
  \<^verbatim>\<open>this.scheduleConfig\<close> for the scheduler.
\<close>

definition loadScheduleConfig :: "collaborators \<Rightarrow> scheduleDocument \<Rightarrow> error + scheduleDocument" where
  "loadScheduleConfig co cfg =
     (case fileReader_validateScheduleConfig cfg of
        Inl e \<Rightarrow> Inl e
      | Inr u \<Rightarrow>
          (case validateScheduleConfig co cfg of
             (isValid, errors) \<Rightarrow>
               (if \<not> isValid
                then Inl (Error (''Invalid schedule configuration: '' @ join '', '' errors))
                else Inr cfg)))"

section \<open>Starting the scheduler\<close>

text \<open>
  \<^verbatim>\<open>startMaintenanceJobs\<close>, lines 420-446: two tasks created running, entered
  in the registry without a config, and started again.
\<close>

definition startMaintenanceJobs :: "app \<Rightarrow> app" where
  "startMaintenanceJobs s =
     (let h1 = length (tasks s);
          healthCheckJob = \<lparr>expression = ''*/5 * * * *'', task_timezone = None,
                            task_callback = UpdateHealthStatus, running = True\<rparr>;
          s1 = s\<lparr>tasks := tasks s @ [healthCheckJob]\<rparr>;
          s2 = s1\<lparr>cronJobs := AList.update ''health_check''
                                 \<lparr>job = h1, config = None, entry_type = maintenance\<rparr> (cronJobs s1)\<rparr>;
          h2 = length (tasks s2);
          logCleanupJob = \<lparr>expression = ''0 2 * * 0'', task_timezone = None,
                           task_callback = LogCleanup, running = True\<rparr>;
          s3 = s2\<lparr>tasks := tasks s2 @ [logCleanupJob]\<rparr>;
          s4 = s3\<lparr>cronJobs := AList.update ''log_cleanup''
                                 \<lparr>job = h2, config = None, entry_type = maintenance\<rparr> (cronJobs s3)\<rparr>
      in s4\<lparr>tasks := task_start h2 (task_start h1 (tasks s4))\<rparr>)"

text \<open>\<^verbatim>\<open>startScheduler\<close>, lines 226-247.\<close>

definition startScheduler :: "collaborators \<Rightarrow> app \<Rightarrow> scheduleDocument \<Rightarrow> app" where
  "startScheduler co s cfg =
     (let s1 = (case posts cfg of None \<Rightarrow> s | Some ps \<Rightarrow> foldl (schedulePost co) s ps);
          s2 = (case recurring cfg of None \<Rightarrow> s1 | Some rs \<Rightarrow> foldl (scheduleRecurringPost co) s1 rs)
      in startMaintenanceJobs s2)"

text \<open>
  The conditions of acceptance, in the words of the specification: content
  or file, a scheduled time and a non-empty list of known platforms; a
  scheduled time that parses, is not in the past and names a known zone;
  image references that are strings and inline content within the length
  limit of each platform; valid settings.
\<close>

definition platforms_accepted :: "postConfig \<Rightarrow> bool" where
  "platforms_accepted post =
     (case platforms post of
        None \<Rightarrow> False
      | Some ps \<Rightarrow> ps \<noteq> [] \<and> list_all (\<lambda>p. p = ''facebook'' \<or> p = ''instagram'') ps)"

definition basic_accepted :: "postConfig \<Rightarrow> bool" where
  "basic_accepted post =
     ((truthy (content post) \<or> truthy (post_file post))
      \<and> truthy (scheduledTime post)
      \<and> platforms_accepted post)"

definition time_accepted :: "collaborators \<Rightarrow> postConfig \<Rightarrow> bool" where
  "time_accepted co post =
     (let tz = (case timezone post of None \<Rightarrow> Some ''UTC'' | Some z \<Rightarrow> Some z)
      in (\<not> truthy tz \<or> the tz \<in> set (validTimezones co))
         \<and> (case momentParse co (the (scheduledTime post)) (or_else tz ''UTC'') of
               None \<Rightarrow> False
             | Some momentDate \<Rightarrow> now co \<le> momentDate))"

definition extras_accepted :: "postConfig \<Rightarrow> bool" where
  "extras_accepted post =
     (list_all (\<lambda>image. image \<noteq> NonString) (case images post of None \<Rightarrow> [] | Some imgs \<Rightarrow> imgs)
      \<and> (\<not> truthy (content post)
          \<or> list_all (\<lambda>p. case maxTextLength p of
                            None \<Rightarrow> False
                          | Some limit \<Rightarrow> int (length (the (content post))) \<le> limit)
               (case platforms post of None \<Rightarrow> [] | Some ps \<Rightarrow> ps)))"

definition post_accepted :: "collaborators \<Rightarrow> postConfig \<Rightarrow> bool" where
  "post_accepted co post =
     (basic_accepted post \<and> time_accepted co post \<and> extras_accepted post)"

definition settings_accepted :: "collaborators \<Rightarrow> settings option \<Rightarrow> bool" where
  "settings_accepted co v =
     (case v of
        None \<Rightarrow> True
      | Some st \<Rightarrow>
          (\<not> truthy (settings_timezone st) \<or> the (settings_timezone st) \<in> set (validTimezones co))
          \<and> \<not> bad_number (retryAttempts st) \<and> \<not> bad_number (retryDelay st))"

section \<open>The shutdown coordinator\<close>

text \<open>
  Lines 542-546: every task in the registry is stopped, in the order of the
  Map, and the registry is cleared.
\<close>

definition stop_all :: "(jobId \<times> registryEntry) list \<Rightarrow> cronTask list \<Rightarrow> cronTask list" where
  "stop_all reg ts = foldl (\<lambda>acc (jobId, jobData). task_stop (job jobData) acc) ts reg"

text \<open>Lines 529-546, the synchronous part of \<^verbatim>\<open>shutdown\<close> before the wait.\<close>

definition shutdown_begin :: "app \<Rightarrow> app" where
  "shutdown_begin s =
     (let s1 = s\<lparr>isShuttingDown := True\<rparr>
      in s1\<lparr>tasks := stop_all (cronJobs s1) (tasks s1), cronJobs := []\<rparr>)"

text \<open>
  What can happen to the application while \<^verbatim>\<open>shutdown\<close> sleeps: a timer
  calls \<^verbatim>\<open>executePost\<close>, which runs up to its first \<^verbatim>\<open>await\<close>, or an
  execution that had started runs to its end.
\<close>

datatype event = Fires jobId postConfig | Completes jobId postConfig

fun apply_event :: "collaborators \<Rightarrow> app \<Rightarrow> event \<Rightarrow> app" where
  "apply_event co s (Fires j cfg) =
     (if isShuttingDown s then s else executePost_begin co s j cfg)"
| "apply_event co s (Completes j cfg) = fst (executePost_complete co s j cfg)"

text \<open>
  The wait of lines 549-555. \<open>elapsed\<close> is \<^verbatim>\<open>Date.now() - startTime\<close> at the
  test of the loop; each round of the schedule gives the time that passed
  during one \<^verbatim>\<open>setTimeout(resolve, 1000)\<close> and the events that happened
  meanwhile. \<open>None\<close>: the schedule ended while the loop was still waiting.
\<close>

definition shutdownTimeout :: int where
  "shutdownTimeout = 30000"

fun drain ::
  "collaborators \<Rightarrow> app \<Rightarrow> int \<Rightarrow> (int \<times> event list) list \<Rightarrow> (app \<times> int) option" where
  "drain co s elapsed [] =
     (if activeJobs s \<noteq> [] \<and> elapsed < shutdownTimeout then None else Some (s, elapsed))"
| "drain co s elapsed ((dt, evs) # rest) =
     (if activeJobs s \<noteq> [] \<and> elapsed < shutdownTimeout
      then drain co (foldl (apply_event co) s evs) (elapsed + dt) rest
      else Some (s, elapsed))"

text \<open>
  \<^verbatim>\<open>shutdown\<close>, lines 526-563, up to \<^verbatim>\<open>process.exit\<close>: the guard against a
  second call, the synchronous part, the wait, and the forced clearing of the
  active set.
\<close>

definition shutdown :: "collaborators \<Rightarrow> app \<Rightarrow> (int \<times> event list) list \<Rightarrow> app option" where
  "shutdown co s sched =
     (if isShuttingDown s then Some s
      else (case drain co (shutdown_begin s) 0 sched of
              None \<Rightarrow> None
            | Some (s', elapsed) \<Rightarrow>
                Some (if activeJobs s' \<noteq> [] then s'\<lparr>activeJobs := []\<rparr> else s')))"

section \<open>The retry configuration (src/config/scheduler.js)\<close>

text \<open>
  \<^verbatim>\<open>retry.errorTypes\<close>, lines 62-87: static data. Delays are in
  milliseconds.
\<close>

record retryPolicy =
  maxAttempts :: nat
  baseDelay :: int
  maxDelay :: int
  backoffMultiplier :: rat

definition errorTypes :: "string \<Rightarrow> retryPolicy option" where
  "errorTypes cls =
     (if cls = ''rate_limit'' then
        Some \<lparr>maxAttempts = 5, baseDelay = 300000, maxDelay = 1800000, backoffMultiplier = 2\<rparr>
      else if cls = ''network_error'' then
        Some \<lparr>maxAttempts = 4, baseDelay = 10000, maxDelay = 60000, backoffMultiplier = 2\<rparr>
      else if cls = ''authentication_error'' then
        Some \<lparr>maxAttempts = 2, baseDelay = 120000, maxDelay = 300000, backoffMultiplier = 3 / 2\<rparr>
      else if cls = ''content_error'' then
        Some \<lparr>maxAttempts = 1, baseDelay = 0, maxDelay = 0, backoffMultiplier = 1\<rparr>
      else None)"

section \<open>Documents that differ in their priority labels\<close>

text \<open>
  Two configurations, applications or documents agree up to the priority
  labels when they are equal once every label has been erased: in the
  descriptors of the document, in the configs kept by the registry and the
  active set, and in the configs captured by the callbacks of the tasks.
\<close>

definition forget_priority :: "postConfig \<Rightarrow> postConfig" where
  "forget_priority cfg = cfg\<lparr>priority := None\<rparr>"

fun forget_callback :: "callback \<Rightarrow> callback" where
  "forget_callback (ExecutePost j cfg) = ExecutePost j (forget_priority cfg)"
| "forget_callback (ExecuteRecurringPost j cfg) = ExecuteRecurringPost j (forget_priority cfg)"
| "forget_callback UpdateHealthStatus = UpdateHealthStatus"
| "forget_callback LogCleanup = LogCleanup"

definition forget_app :: "app \<Rightarrow> app" where
  "forget_app s =
     s\<lparr>activeJobs := map (\<lambda>(k, a). (k, a\<lparr>active_config := forget_priority (active_config a)\<rparr>))
                         (activeJobs s),
       cronJobs := map (\<lambda>(k, e). (k, e\<lparr>config := map_option forget_priority (config e)\<rparr>))
                       (cronJobs s),
       tasks := map (\<lambda>t. t\<lparr>task_callback := forget_callback (task_callback t)\<rparr>) (tasks s)\<rparr>"

definition forget_document :: "scheduleDocument \<Rightarrow> scheduleDocument" where
  "forget_document d =
     d\<lparr>posts := map_option (map forget_priority) (posts d),
       recurring := map_option (map forget_priority) (recurring d)\<rparr>"

section \<open>Concrete schedules and collaborators\<close>

text \<open>
  A process in UTC whose collaborators succeed for facebook and instagram;
  the post file is missing on disk.
\<close>

definition co_ok :: collaborators where
  "co_ok =
     \<lparr>now = 1700000000000,
      localOffset = (\<lambda>t. 0),
      zoneOffset = (\<lambda>z. if z = ''UTC'' then Some (\<lambda>t. 0)
                         else if z = ''Asia/Tokyo'' then Some (\<lambda>t. 540)
                         else None),
      parseDate = (\<lambda>str. if str = ''2024-12-15T09:00:30Z'' then Some 1734253230000 else None),
      cronValid = (\<lambda>e z. e \<noteq> ''NaN NaN NaN NaN *''),
      defaultTimezone = ''UTC'',
      math_random = (\<lambda>n. 0),
      validTimezones = [''UTC'', ''America/New_York'', ''Asia/Tokyo''],
      momentParse = (\<lambda>str z. if str = ''2024-12-15T09:00:30Z'' then Some 1734253230000 else None),
      basename = (\<lambda>path. path),
      readTextFile = (\<lambda>name. Inl (Error ''Text file not found: missing.txt'')),
      processPlatformContent =
        (\<lambda>n c imgs p. Inr \<lparr>pc_content = (case c of None \<Rightarrow> [] | Some t \<Rightarrow> t), pc_images = []\<rparr>),
      postToPlatform =
        (\<lambda>n p pd. if p = ''facebook'' \<or> p = ''instagram''
                   then Inr \<lparr>result_platform = p, result_id = ''17''\<rparr>
                   else Inl (Error (''Unsupported platform: '' @ p)))\<rparr>"

text \<open>The same process when every publish call fails with a network error.\<close>

definition co_network_down :: collaborators where
  "co_network_down =
     co_ok\<lparr>postToPlatform := (\<lambda>n p pd. Inl (Error ''Network error: ECONNRESET''))\<rparr>"


definition morning_post :: postConfig where
  "morning_post =
     \<lparr>post_id = Some ''morning_post'', content = Some ''Good morning!'', post_file = None,
      platforms = Some [''facebook'', ''instagram''], images = None,
      scheduledTime = Some ''2024-12-15T09:00:30Z'', cronPattern = None,
      timezone = None, priority = Some ''high'', variables = None\<rparr>"


text \<open>A post whose content is in a file that does not exist.\<close>

definition file_post :: postConfig where
  "file_post =
     \<lparr>post_id = Some ''from_file'', content = None, post_file = Some ''missing.txt'',
      platforms = Some [''facebook''], images = None,
      scheduledTime = Some ''2024-12-15T09:00:30Z'', cronPattern = None,
      timezone = None, priority = None, variables = None\<rparr>"

text \<open>
  The morning post has been scheduled and has fired, and its execution is
  waiting for a collaborator when \<^verbatim>\<open>shutdown\<close> starts.
\<close>

definition in_flight :: app where
  "in_flight =
     executePost_begin co_ok (schedulePost co_ok initial_app morning_post)
       ''post_morning_post'' morning_post"

text \<open>
  Two rounds of the wait: a stray timer fires during the first second, and
  the execution of the morning post ends during the next.
\<close>

definition two_rounds :: "(int \<times> event list) list" where
  "two_rounds =
     [(1000, [Fires ''post_from_file'' file_post]),
      (1003, [Completes ''post_morning_post'' morning_post])]"

text \<open>
  A recurring descriptor with an empty platform list, no content, no file and
  no trigger pattern, and a document that holds it beside the morning post.
\<close>

definition empty_template :: postConfig where
  "empty_template =
     \<lparr>post_id = Some ''weekly'', content = None, post_file = None,
      platforms = Some [], images = None, scheduledTime = None, cronPattern = None,
      timezone = None, priority = None, variables = None\<rparr>"

definition morning_document :: scheduleDocument where
  "morning_document =
     \<lparr>posts = Some [morning_post], recurring = Some [empty_template], doc_settings = None\<rparr>"

text \<open>The same process started after the scheduled time of the morning post.\<close>

definition co_late :: collaborators where
  "co_late = co_ok\<lparr>now := 1800000000000\<rparr>"

text \<open>The morning post and its document with another priority label.\<close>

definition low_priority_post :: postConfig where
  "low_priority_post = morning_post\<lparr>priority := Some ''low''\<rparr>"

definition low_priority_document :: scheduleDocument where
  "low_priority_document =
     \<lparr>posts = Some [low_priority_post], recurring = Some [empty_template], doc_settings = None\<rparr>"

section \<open>Properties of the executor\<close>



lemma removeOneTime_activeJobs: "activeJobs (removeOneTime s jobId) = activeJobs s"
  by (simp add: removeOneTime_def split: option.splits)

lemma executePost_complete_inactive:
  "jobId \<notin> fst ` set (activeJobs (fst (executePost_complete co s jobId cfg)))"
  unfolding executePost_complete_def
  by (simp add: AList.delete_notin_dom split: prod.splits sum.splits error.splits)

lemma executePost_begin_active:
  "jobId \<in> fst ` set (activeJobs (executePost_begin co s jobId cfg))"
  by (simp add: executePost_begin_def AList.dom_update)

text \<open>
  C8. An execution that begins puts its identifier into the active set, and
  when \<^verbatim>\<open>executePost\<close> returns the identifier is not in the active set, whatever
  the collaborators did: success, a failed platform, or a fault that reached
  the outer \<^verbatim>\<open>catch\<close>. The same holds when other executions or a shutdown
  have changed the application while this one was waiting: the end of the
  execution removes the identifier from whatever state it finds.
\<close>

theorem executePost_releases_active:
  assumes "\<not> isShuttingDown s"
  shows "jobId \<in> fst ` set (activeJobs (executePost_begin co s jobId cfg))
       \<and> jobId \<notin> fst ` set (activeJobs (fst (executePost co s jobId cfg)))
       \<and> jobId \<notin> fst ` set (activeJobs (fst (executePost_complete co s' jobId cfg)))"
proof (intro conjI)
  show "jobId \<in> fst ` set (activeJobs (executePost_begin co s jobId cfg))"
    by (rule executePost_begin_active)
  have "fst (executePost co s jobId cfg)
        = fst (executePost_complete co (executePost_begin co s jobId cfg) jobId cfg)"
    using assms by (simp add: executePost_def split: prod.splits)
  then show "jobId \<notin> fst ` set (activeJobs (fst (executePost co s jobId cfg)))"
    by (simp add: executePost_complete_inactive)
  show "jobId \<notin> fst ` set (activeJobs (fst (executePost_complete co s' jobId cfg)))"
    by (rule executePost_complete_inactive)
qed

theorem executePost_releases_active_witness:
  "\<not> isShuttingDown initial_app
   \<and> ''post_morning_post''
       \<in> fst ` set (activeJobs (executePost_begin co_network_down initial_app
                                  ''post_morning_post'' morning_post))
   \<and> ''post_morning_post''
       \<notin> fst ` set (activeJobs (fst (executePost co_network_down initial_app
                                       ''post_morning_post'' morning_post)))"
  using executePost_releases_active
          [of initial_app "''post_morning_post''" co_network_down morning_post initial_app]
  by (simp add: initial_app_def)

subsection \<open>One pass over the platforms\<close>







lemma postOne_at_most_once: "length (fst (postOne co processed n p)) \<le> 1"
  by (simp add: postOne_def Let_def split: option.splits)


lemma postLoop_length:
  "length (fst (postLoop co processed ps n att results)) \<le> length att + length ps"
proof (induction ps arbitrary: n att results)
  case Nil
  then show ?case by simp
next
  case (Cons p ps)
  obtain a r where ar: "postOne co processed n p = (a, r)"
    by (cases "postOne co processed n p")
  with postOne_at_most_once [of co processed n p] have "length a \<le> 1"
    by simp
  moreover have "length (fst (postLoop co processed ps (Suc n) (att @ a) (js_set p r results)))
                 \<le> length (att @ a) + length ps"
    by (rule Cons.IH)
  ultimately show ?case
    using ar by simp
qed








subsection \<open>One-off jobs after execution\<close>

text \<open>
  C5. The removal of a one-time job (lines 374-378) is inside the \<^verbatim>\<open>try\<close>
  block, so a fault before the loop skips it. A post whose file is missing is
  scheduled and fired: the execution fails, and afterwards the state is the
  one before the execution, with the entry in the registry and the trigger
  running.
\<close>

theorem executePost_fault_keeps_one_off_job:
  "executePost co_ok (schedulePost co_ok initial_app file_post) ''post_from_file'' file_post
   = (schedulePost co_ok initial_app file_post,
      Some \<lparr>attempts = [], logged = Faulted ''Text file not found: missing.txt''\<rparr>)
   \<and> map (\<lambda>(k, e). (k, job e, entry_type e)) (cronJobs (schedulePost co_ok initial_app file_post))
       = [(''post_from_file'', 0, scheduled_post)]
   \<and> map running (tasks (schedulePost co_ok initial_app file_post)) = [True]"
  by code_simp

subsection \<open>No retry\<close>

lemma task_stop_length: "length (task_stop h ts) = length ts"
  by (simp add: task_stop_def)

lemma task_stop_running:
  "i < length ts \<Longrightarrow> running (task_stop h ts ! i) \<Longrightarrow> running (ts ! i)"
  by (cases "i = h") (auto simp: task_stop_def split: if_splits)

lemma removeOneTime_tasks_length: "length (tasks (removeOneTime s jobId)) = length (tasks s)"
  by (simp add: removeOneTime_def task_stop_length split: option.splits)

lemma removeOneTime_running:
  "i < length (tasks s) \<Longrightarrow> running (tasks (removeOneTime s jobId) ! i) \<Longrightarrow> running (tasks s ! i)"
  by (auto simp: removeOneTime_def split: option.splits if_splits dest: task_stop_running)

lemma removeOneTime_keys:
  "fst ` set (cronJobs (removeOneTime s jobId)) \<subseteq> fst ` set (cronJobs s)"
  using AList.dom_delete_subset [of jobId "cronJobs s"]
  by (auto simp: removeOneTime_def split: option.splits)

lemma executePost_try_state:
  "executePost_try co s jobId cfg = Inr (s', ex) \<Longrightarrow> s' = removeOneTime s jobId"
  by (auto simp: executePost_try_def split: sum.splits)

lemma executePost_try_attempts:
  "executePost_try co s jobId cfg = Inr (s', ex) \<Longrightarrow>
   \<exists>ps. platforms cfg = Some ps \<and> length (attempts ex) \<le> length ps"
proof -
  assume a: "executePost_try co s jobId cfg = Inr (s', ex)"
  then obtain ps where ps: "platforms cfg = Some ps"
    by (auto simp: executePost_try_def executePost_pass_def split: sum.splits option.splits)
  from a ps have "\<exists>processed. attempts ex = fst (postLoop co processed ps 0 [] empty_object)"
    by (auto simp: executePost_try_def executePost_pass_def split: sum.splits prod.splits)
       (metis fst_conv)
  then obtain processed where "attempts ex = fst (postLoop co processed ps 0 [] empty_object)"
    by blast
  with postLoop_length [of co processed ps 0 "[]" empty_object] ps show ?thesis
    by simp
qed

lemma executePost_complete_cases:
  "(\<exists>m. executePost_complete co s jobId cfg
          = (s\<lparr>activeJobs := AList.delete jobId (activeJobs s)\<rparr>,
             \<lparr>attempts = [], logged = Faulted m\<rparr>))
   \<or> (\<exists>ex ps. executePost_complete co s jobId cfg
          = ((removeOneTime s jobId)\<lparr>activeJobs := AList.delete jobId (activeJobs s)\<rparr>, ex)
        \<and> platforms cfg = Some ps \<and> length (attempts ex) \<le> length ps)"
proof (cases "executePost_try co s jobId cfg")
  case (Inl e)
  then show ?thesis
    by (cases e) (simp add: executePost_complete_def)
next
  case (Inr r)
  obtain s' ex where r: "r = (s', ex)"
    by (cases r)
  with Inr executePost_try_state [of co s jobId cfg s' ex]
       executePost_try_attempts [of co s jobId cfg s' ex]
  show ?thesis
    by (auto simp: executePost_complete_def removeOneTime_activeJobs)
qed

lemma executePost_begin_tasks: "tasks (executePost_begin co s jobId cfg) = tasks s"
  by (simp add: executePost_begin_def)

lemma executePost_begin_cronJobs: "cronJobs (executePost_begin co s jobId cfg) = cronJobs s"
  by (simp add: executePost_begin_def)

text \<open>
  C1, as the code has it. An execution is one pass: it calls the publish
  collaborator at most once for each platform of the list, whatever the
  errors were, and when it returns it has created no trigger, started no
  trigger and added no registry entry, so nothing is left that would run the
  job again. The retry table is not an input of the executor.
\<close>

theorem executePost_single_pass:
  assumes "\<not> isShuttingDown s"
  shows "\<exists>s' ex. executePost co s jobId cfg = (s', Some ex)
         \<and> length (attempts ex) \<le> (case platforms cfg of None \<Rightarrow> 0 | Some ps \<Rightarrow> length ps)
         \<and> length (tasks s') = length (tasks s)
         \<and> (\<forall>i < length (tasks s). running (tasks s' ! i) \<longrightarrow> running (tasks s ! i))
         \<and> fst ` set (cronJobs s') \<subseteq> fst ` set (cronJobs s)"
proof -
  let ?sb = "executePost_begin co s jobId cfg"
  have tb: "tasks ?sb = tasks s" and cb: "cronJobs ?sb = cronJobs s"
    by (simp_all add: executePost_begin_def)
  have ex: "executePost co s jobId cfg
            = (fst (executePost_complete co ?sb jobId cfg),
               Some (snd (executePost_complete co ?sb jobId cfg)))"
    using assms by (simp add: executePost_def split: prod.splits)
  from executePost_complete_cases [of co ?sb jobId cfg]
  consider (fault) m where
      "executePost_complete co ?sb jobId cfg
       = (?sb\<lparr>activeJobs := AList.delete jobId (activeJobs ?sb)\<rparr>,
          \<lparr>attempts = [], logged = Faulted m\<rparr>)"
    | (pass) e ps where
      "executePost_complete co ?sb jobId cfg
       = ((removeOneTime ?sb jobId)\<lparr>activeJobs := AList.delete jobId (activeJobs ?sb)\<rparr>, e)"
      "platforms cfg = Some ps" "length (attempts e) \<le> length ps"
    by blast
  then show ?thesis
  proof cases
    case fault
    with ex tb cb show ?thesis
      by (simp split: option.splits)
  next
    case pass
    have "length (tasks (removeOneTime ?sb jobId)) = length (tasks s)"
      using removeOneTime_tasks_length [of ?sb jobId] tb by simp
    moreover have "\<forall>i < length (tasks s).
                     running (tasks (removeOneTime ?sb jobId) ! i) \<longrightarrow> running (tasks s ! i)"
      using removeOneTime_running [of _ ?sb jobId] tb by simp
    moreover have "fst ` set (cronJobs (removeOneTime ?sb jobId)) \<subseteq> fst ` set (cronJobs s)"
      using removeOneTime_keys [of ?sb jobId] cb by simp
    ultimately show ?thesis
      using ex pass by simp
  qed
qed

theorem executePost_single_pass_witness:
  "\<not> isShuttingDown (schedulePost co_ok initial_app morning_post)
   \<and> (\<exists>s' ex. executePost co_network_down (schedulePost co_ok initial_app morning_post)
                 ''post_morning_post'' morning_post = (s', Some ex)
         \<and> length (attempts ex)
             \<le> (case platforms morning_post of None \<Rightarrow> 0 | Some ps \<Rightarrow> length ps)
         \<and> length (tasks s') = length (tasks (schedulePost co_ok initial_app morning_post))
         \<and> (\<forall>i < length (tasks (schedulePost co_ok initial_app morning_post)).
               running (tasks s' ! i)
               \<longrightarrow> running (tasks (schedulePost co_ok initial_app morning_post) ! i))
         \<and> fst ` set (cronJobs s')
             \<subseteq> fst ` set (cronJobs (schedulePost co_ok initial_app morning_post)))"
proof -
  have h: "\<not> isShuttingDown (schedulePost co_ok initial_app morning_post)"
    by code_simp
  from executePost_single_pass [OF h, of co_network_down "''post_morning_post''" morning_post] h
  show ?thesis
    by blast
qed

text \<open>
  C1 as stated fails. The class \<^verbatim>\<open>network_error\<close> is configured with four
  attempts, and a one-off job whose two publish calls fail with a network
  error is attempted once: the pass is logged as failed, the entry leaves the
  registry and its trigger is stopped. No retry is scheduled.
\<close>

theorem executePost_network_error_counterexample:
  "map_option maxAttempts (errorTypes ''network_error'') = Some 4
   \<and> executePost co_network_down (schedulePost co_ok initial_app morning_post)
        ''post_morning_post'' morning_post
     = (\<lparr>isShuttingDown = False, activeJobs = [], cronJobs = [],
         tasks = [\<lparr>expression = ''0 9 15 12 *'', task_timezone = Some ''UTC'',
                   task_callback = ExecutePost ''post_morning_post'' morning_post,
                   running = False\<rparr>]\<rparr>,
        Some \<lparr>attempts = [(''facebook'', \<lparr>pd_content = ''Good morning!'', imagePath = None\<rparr>),
                          (''instagram'', \<lparr>pd_content = ''Good morning!'', imagePath = None\<rparr>)],
              logged = Executed False
                         [(''facebook'', Failed ''Network error: ECONNRESET''),
                          (''instagram'', Failed ''Network error: ECONNRESET'')]\<rparr>)"
  by code_simp

subsection \<open>Shutdown\<close>

lemma keys_delete: "fst ` set (AList.delete k al) = fst ` set al - {k}"
  using AList.delete_keys [of k al] by (metis list.set_map set_removeAll)

lemma removeOneTime_flag: "isShuttingDown (removeOneTime s jobId) = isShuttingDown s"
  by (simp add: removeOneTime_def split: option.splits)

lemma executePost_complete_active:
  "activeJobs (fst (executePost_complete co s jobId cfg)) = AList.delete jobId (activeJobs s)"
  using executePost_complete_cases [of co s jobId cfg] by auto

lemma executePost_complete_flag:
  "isShuttingDown (fst (executePost_complete co s jobId cfg)) = isShuttingDown s"
  using executePost_complete_cases [of co s jobId cfg] by (auto simp: removeOneTime_flag)

lemma apply_event_flag: "isShuttingDown s \<Longrightarrow> isShuttingDown (apply_event co s e)"
  by (cases e) (simp_all add: executePost_complete_flag)

lemma apply_event_active:
  "isShuttingDown s \<Longrightarrow>
   fst ` set (activeJobs (apply_event co s e))
   = (case e of Fires j cfg \<Rightarrow> fst ` set (activeJobs s)
      | Completes j cfg \<Rightarrow> fst ` set (activeJobs s) - {j})"
  by (cases e) (simp_all add: executePost_complete_active keys_delete)

lemma events_flag: "isShuttingDown s \<Longrightarrow> isShuttingDown (foldl (apply_event co) s evs)"
  by (induction evs arbitrary: s) (simp_all add: apply_event_flag)

lemma events_active_subset:
  "isShuttingDown s \<Longrightarrow>
   fst ` set (activeJobs (foldl (apply_event co) s evs)) \<subseteq> fst ` set (activeJobs s)"
proof (induction evs arbitrary: s)
  case Nil
  then show ?case by simp
next
  case (Cons e evs)
  have "fst ` set (activeJobs (apply_event co s e)) \<subseteq> fst ` set (activeJobs s)"
    using apply_event_active [OF Cons.prems, of co e] by (cases e) auto
  moreover have "fst ` set (activeJobs (foldl (apply_event co) (apply_event co s e) evs))
                 \<subseteq> fst ` set (activeJobs (apply_event co s e))"
    by (rule Cons.IH) (simp add: apply_event_flag Cons.prems)
  ultimately show ?case by auto
qed

lemma events_active_stays:
  "isShuttingDown s \<Longrightarrow> J \<in> fst ` set (activeJobs s) \<Longrightarrow>
   J \<in> fst ` set (activeJobs (foldl (apply_event co) s evs))
   \<or> (\<exists>cfg. Completes J cfg \<in> set evs)"
proof (induction evs arbitrary: s)
  case Nil
  then show ?case by simp
next
  case (Cons e evs)
  show ?case
  proof (cases "\<exists>cfg. e = Completes J cfg")
    case True
    then show ?thesis by auto
  next
    case False
    then have "J \<in> fst ` set (activeJobs (apply_event co s e))"
      using apply_event_active [OF Cons.prems(1), of co e] Cons.prems(2)
      by (cases e) auto
    from Cons.IH [OF apply_event_flag [OF Cons.prems(1)] this]
    show ?thesis by auto
  qed
qed

lemma drain_result:
  "isShuttingDown s \<Longrightarrow> drain co s el sched = Some (s', el') \<Longrightarrow>
   isShuttingDown s'
   \<and> fst ` set (activeJobs s') \<subseteq> fst ` set (activeJobs s)
   \<and> (J \<in> fst ` set (activeJobs s) \<longrightarrow>
        J \<in> fst ` set (activeJobs s') \<or> (\<exists>cfg. Completes J cfg \<in> set (concat (map snd sched))))
   \<and> (activeJobs s' \<noteq> [] \<longrightarrow> shutdownTimeout \<le> el')"
proof (induction sched arbitrary: s el)
  case Nil
  then show ?case by (auto split: if_splits)
next
  case (Cons r sched)
  obtain dt evs where r: "r = (dt, evs)"
    by (cases r)
  show ?case
  proof (cases "activeJobs s \<noteq> [] \<and> el < shutdownTimeout")
    case False
    with Cons.prems r show ?thesis by auto
  next
    case True
    let ?s1 = "foldl (apply_event co) s evs"
    from True Cons.prems(2) r have d: "drain co ?s1 (el + dt) sched = Some (s', el')"
      by simp
    have f1: "isShuttingDown ?s1"
      by (rule events_flag [OF Cons.prems(1)])
    note ih = Cons.IH [OF f1 d]
    have sub: "fst ` set (activeJobs ?s1) \<subseteq> fst ` set (activeJobs s)"
      by (rule events_active_subset [OF Cons.prems(1)])
    have stay: "J \<in> fst ` set (activeJobs s) \<Longrightarrow>
                J \<in> fst ` set (activeJobs ?s1) \<or> (\<exists>cfg. Completes J cfg \<in> set evs)"
      by (rule events_active_stays [OF Cons.prems(1)])
    have all_evs: "set (concat (map snd (r # sched))) = set evs \<union> set (concat (map snd sched))"
      using r by simp
    from ih have c1: "isShuttingDown s'"
      by simp
    from ih sub have c2: "fst ` set (activeJobs s') \<subseteq> fst ` set (activeJobs s)"
      by blast
    have c3: "J \<in> fst ` set (activeJobs s) \<longrightarrow>
              J \<in> fst ` set (activeJobs s')
              \<or> (\<exists>cfg. Completes J cfg \<in> set (concat (map snd (r # sched))))"
    proof
      assume "J \<in> fst ` set (activeJobs s)"
      from stay [OF this] ih show
        "J \<in> fst ` set (activeJobs s')
         \<or> (\<exists>cfg. Completes J cfg \<in> set (concat (map snd (r # sched))))"
        unfolding all_evs by blast
    qed
    from ih have c4: "activeJobs s' \<noteq> [] \<longrightarrow> shutdownTimeout \<le> el'"
      by simp
    from c1 c2 c3 c4 show ?thesis
      by simp
  qed
qed

lemma drain_returns:
  "0 \<le> el \<Longrightarrow> \<forall>r \<in> set sched. 1000 \<le> fst r \<Longrightarrow>
   shutdownTimeout \<le> el + 1000 * int (length sched) \<Longrightarrow> drain co s el sched \<noteq> None"
proof (induction sched arbitrary: s el)
  case Nil
  then show ?case by simp
next
  case (Cons r sched)
  obtain dt evs where r: "r = (dt, evs)"
    by (cases r)
  with Cons.prems have dt: "1000 \<le> dt"
    by simp
  have "drain co (foldl (apply_event co) s evs) (el + dt) sched \<noteq> None"
  proof (rule Cons.IH)
    show "0 \<le> el + dt" using Cons.prems(1) dt by simp
    show "\<forall>r \<in> set sched. 1000 \<le> fst r" using Cons.prems(2) by simp
    show "shutdownTimeout \<le> el + dt + 1000 * int (length sched)"
      using Cons.prems(3) dt by simp
  qed
  with r show ?case by simp
qed

lemma shutdown_begin_active:
  "isShuttingDown (shutdown_begin s) \<and> activeJobs (shutdown_begin s) = activeJobs s"
  by (simp add: shutdown_begin_def Let_def)

text \<open>
  C6. In a state whose shutdown flag is set, \<^verbatim>\<open>executePost\<close> returns at once:
  the state is unchanged (nothing joins the active set) and there is no
  execution, hence no platform attempt; a timer that fires during the wait
  changes nothing. During the wait of \<^verbatim>\<open>shutdown\<close> the active set only
  shrinks, an identifier leaves it only when its execution completes, and
  when the wait ends with jobs still active the timeout has elapsed. The wait
  ends after at most thirty rounds of one second.
\<close>

theorem shutdown_blocks_new_executions:
  assumes "isShuttingDown s"
  shows "executePost co s jobId cfg = (s, None)
       \<and> apply_event co s (Fires jobId cfg) = s
       \<and> (\<forall>s' elapsed. drain co s el sched = Some (s', elapsed) \<longrightarrow>
             isShuttingDown s'
           \<and> fst ` set (activeJobs s') \<subseteq> fst ` set (activeJobs s)
           \<and> (\<forall>J \<in> fst ` set (activeJobs s).
                 J \<in> fst ` set (activeJobs s')
                 \<or> (\<exists>c. Completes J c \<in> set (concat (map snd sched))))
           \<and> (activeJobs s' \<noteq> [] \<longrightarrow> shutdownTimeout \<le> elapsed))
       \<and> (0 \<le> el \<and> (\<forall>r \<in> set sched. 1000 \<le> fst r)
            \<and> shutdownTimeout \<le> el + 1000 * int (length sched)
          \<longrightarrow> drain co s el sched \<noteq> None)"
proof (intro conjI allI impI ballI)
  show "executePost co s jobId cfg = (s, None)"
    using assms by (simp add: executePost_def)
  show "apply_event co s (Fires jobId cfg) = s"
    using assms by simp
next
  fix s' elapsed
  assume d: "drain co s el sched = Some (s', elapsed)"
  show "isShuttingDown s'"
    using drain_result [OF assms d] by simp
  show "fst ` set (activeJobs s') \<subseteq> fst ` set (activeJobs s)"
    using drain_result [OF assms d] by simp
  show "shutdownTimeout \<le> elapsed" if "activeJobs s' \<noteq> []"
    using drain_result [OF assms d] that by simp
  fix J
  assume "J \<in> fst ` set (activeJobs s)"
  then show "J \<in> fst ` set (activeJobs s')
             \<or> (\<exists>c. Completes J c \<in> set (concat (map snd sched)))"
    using drain_result [OF assms d, of J] by simp
next
  assume "0 \<le> el \<and> (\<forall>r \<in> set sched. 1000 \<le> fst r)
          \<and> shutdownTimeout \<le> el + 1000 * int (length sched)"
  then show "drain co s el sched \<noteq> None"
    using drain_returns [of el sched co s] by simp
qed

theorem shutdown_blocks_new_executions_witness:
  "isShuttingDown (shutdown_begin in_flight)
   \<and> map fst (activeJobs (shutdown_begin in_flight)) = [''post_morning_post'']
   \<and> executePost co_ok (shutdown_begin in_flight) ''post_from_file'' file_post
       = (shutdown_begin in_flight, None)
   \<and> drain co_ok (shutdown_begin in_flight) 0 two_rounds
       = Some ((shutdown_begin in_flight)\<lparr>activeJobs := []\<rparr>, 2003)
   \<and> Completes ''post_morning_post'' morning_post \<in> set (concat (map snd two_rounds))
   \<and> drain co_ok (shutdown_begin in_flight) 0 (replicate 30 (1000, []))
       = Some (shutdown_begin in_flight, 30000)"
proof -
  have h: "isShuttingDown (shutdown_begin in_flight)"
    by (simp add: shutdown_begin_active)
  have a: "map fst (activeJobs (shutdown_begin in_flight)) = [''post_morning_post'']"
    by code_simp
  have d: "drain co_ok (shutdown_begin in_flight) 0 two_rounds
           = Some ((shutdown_begin in_flight)\<lparr>activeJobs := []\<rparr>, 2003)"
    by code_simp
  have c: "Completes ''post_morning_post'' morning_post \<in> set (concat (map snd two_rounds))"
    by (simp add: two_rounds_def)
  have t: "drain co_ok (shutdown_begin in_flight) 0 (replicate 30 (1000, []))
           = Some (shutdown_begin in_flight, 30000)"
    by code_simp
  from shutdown_blocks_new_executions [OF h, of co_ok "''post_from_file''" file_post 0 two_rounds]
       h a d c t
  show ?thesis
    by simp
qed

subsection \<open>Scheduling the same identifier again\<close>







subsection \<open>Template substitution\<close>

lemma starts_with_iff: "starts_with p str \<longleftrightarrow> (\<exists>t. str = p @ t)"
  by (induction p str rule: starts_with.induct) auto

lemma split_at_first_sound:
  "split_at_first pat str = Some (b, a) \<Longrightarrow> str = b @ pat @ a"
proof (induction str arbitrary: b a)
  case Nil
  then show ?case by (simp split: if_splits)
next
  case (Cons c cs)
  show ?case
  proof (cases "starts_with pat (c # cs)")
    case True
    with Cons.prems have b: "b = []" and a: "a = drop (length pat) (c # cs)"
      by simp_all
    from True obtain t where "c # cs = pat @ t"
      by (auto simp: starts_with_iff)
    then have "c # cs = pat @ drop (length pat) (c # cs)"
      by simp
    with b a show ?thesis
      by simp
  next
    case False
    with Cons.prems obtain b' where "split_at_first pat cs = Some (b', a)" "b = c # b'"
      by (auto split: option.splits)
    with Cons.IH show ?thesis
      by simp
  qed
qed

lemma split_at_first_least:
  "split_at_first pat str = Some (b, a) \<Longrightarrow> str = pre @ pat @ post \<Longrightarrow> length b \<le> length pre"
proof (induction str arbitrary: b a pre)
  case Nil
  then show ?case by (simp split: if_splits)
next
  case (Cons c cs)
  show ?case
  proof (cases "starts_with pat (c # cs)")
    case True
    with Cons.prems(1) have "b = []"
      by simp
    then show ?thesis
      by simp
  next
    case False
    with Cons.prems(1) obtain b' where b': "split_at_first pat cs = Some (b', a)" "b = c # b'"
      by (auto split: option.splits)
    from False Cons.prems(2) have "pre \<noteq> []"
      by (auto simp: starts_with_iff)
    then obtain pre' where pre': "pre = c # pre'" "cs = pre' @ pat @ post"
      using Cons.prems(2) by (cases pre) auto
    from Cons.IH [OF b'(1) pre'(2)] b'(2) pre'(1) show ?thesis
      by simp
  qed
qed

lemma split_at_first_complete:
  "str = pre @ pat @ post \<Longrightarrow> split_at_first pat str \<noteq> None"
proof (induction str arbitrary: pre)
  case Nil
  then show ?case by simp
next
  case (Cons c cs)
  show ?case
  proof (cases "starts_with pat (c # cs)")
    case True
    then show ?thesis by simp
  next
    case False
    with Cons.prems have "pre \<noteq> []"
      by (auto simp: starts_with_iff)
    then obtain pre' where "cs = pre' @ pat @ post"
      using Cons.prems by (cases pre) auto
    from Cons.IH [OF this] False show ?thesis
      by (auto split: option.splits)
  qed
qed

lemma split_at_first_eq:
  assumes "str = pre @ pat @ post"
    and "\<forall>pre' post'. str = pre' @ pat @ post' \<longrightarrow> length pre \<le> length pre'"
  shows "split_at_first pat str = Some (pre, post)"
proof -
  from split_at_first_complete [OF assms(1)] obtain b a where
    ba: "split_at_first pat str = Some (b, a)"
    by auto
  have s: "str = b @ pat @ a"
    by (rule split_at_first_sound [OF ba])
  have "length b \<le> length pre"
    by (rule split_at_first_least [OF ba assms(1)])
  moreover from assms(2) s have "length pre \<le> length b"
    by blast
  ultimately have "length b = length pre"
    by simp
  with s assms(1) have "b = pre \<and> a = post"
    by (metis append_eq_append_conv same_append_eq)
  with ba show ?thesis
    by simp
qed

lemma GetSubstitution_plain:
  "\<not> has_replacement_pattern r \<Longrightarrow> GetSubstitution m b a r = r"
  by (induction m b a r rule: GetSubstitution.induct) auto

lemma pick_member:
  assumes "0 \<le> u" and "u < 1" and "vs \<noteq> []"
  shows "\<exists>v \<in> set vs. pick u vs = Some v"
proof -
  let ?i = "\<lfloor>u * of_nat (length vs)\<rfloor>"
  have "0 \<le> u * of_nat (length vs)"
    using assms(1) by simp
  then have nonneg: "0 \<le> ?i"
    by simp
  have "u * of_nat (length vs) < of_nat (length vs)"
    using assms(2,3) by simp
  then have "?i < int (length vs)"
    by (simp add: floor_less_iff)
  with nonneg have "nat ?i < length vs"
    by (simp add: nat_less_iff)
  with nonneg show ?thesis
    by (auto simp: pick_def Let_def)
qed


lemma js_replace_first:
  assumes "str = pre @ pat @ post"
    and "\<forall>pre' post'. str = pre' @ pat @ post' \<longrightarrow> length pre \<le> length pre'"
    and "\<not> has_replacement_pattern r"
  shows "js_replace str pat r = pre @ r @ post"
  using split_at_first_eq [OF assms(1,2)] assms(3)
  by (simp add: js_replace_def GetSubstitution_plain)

lemma js_replace_absent:
  assumes "\<not> (\<exists>pre post. str = pre @ pat @ post)"
  shows "js_replace str pat r = str"
proof (cases "split_at_first pat str")
  case None
  then show ?thesis by (simp add: js_replace_def)
next
  case (Some ba)
  obtain b a where "ba = (b, a)"
    by (cases ba)
  with Some split_at_first_sound [of pat str b a] assms show ?thesis
    by blast
qed

lemma processTemplate_loop_untouched:
  "\<forall>(key, v) \<in> set vars. v \<noteq> NotArr \<longrightarrow> \<not> (\<exists>pre post. pc = pre @ placeholder key @ post) \<Longrightarrow>
   processTemplate_loop co n (Some pc) vars = Inr (Some pc)"
proof (induction vars arbitrary: n)
  case Nil
  then show ?case by simp
next
  case (Cons kv vars)
  obtain key v where kv: "kv = (key, v)"
    by (cases kv)
  show ?case
  proof (cases v)
    case NotArr
    with kv Cons show ?thesis by simp
  next
    case (Arr vs)
    with kv Cons.prems have "\<not> (\<exists>pre post. pc = pre @ placeholder key @ post)"
      by simp
    then have "js_replace pc (placeholder key) (show_opt (pick (math_random co n) vs)) = pc"
      by (rule js_replace_absent)
    with kv Arr Cons show ?thesis by simp
  qed
qed

text \<open>
  C10, as the code has it. The variables are applied in order, each to the
  text produced so far. For a variable whose value is a non-empty array of
  candidates without a replacement pattern (\<^verbatim>\<open>$$\<close>, \<^verbatim>\<open>$&\<close>, \<^verbatim>\<open>$\<close> with a
  backquote or an apostrophe), one candidate is picked and the first
  occurrence of its placeholder is replaced by it, the text before and after staying as it
  is (later occurrences included); without an occurrence the text is
  unchanged. A variable whose value is not an array changes nothing, and a
  text in which no placeholder of an array variable occurs is returned as it
  is.
\<close>

theorem processTemplate_first_occurrence:
  assumes "0 \<le> math_random co n" and "math_random co n < 1"
    and "vs \<noteq> []" and "\<forall>v \<in> set vs. \<not> has_replacement_pattern v"
  shows "\<exists>v \<in> set vs.
           (\<forall>pre post.
              pc = pre @ placeholder key @ post
              \<and> (\<forall>pre' post'. pc = pre' @ placeholder key @ post' \<longrightarrow> length pre \<le> length pre')
              \<longrightarrow> processTemplate_loop co n (Some pc) ((key, Arr vs) # rest)
                  = processTemplate_loop co (Suc n) (Some (pre @ v @ post)) rest)
         \<and> (\<not> (\<exists>pre post. pc = pre @ placeholder key @ post)
              \<longrightarrow> processTemplate_loop co n (Some pc) ((key, Arr vs) # rest)
                  = processTemplate_loop co (Suc n) (Some pc) rest)
         \<and> processTemplate_loop co n (Some pc) ((key, NotArr) # rest)
             = processTemplate_loop co n (Some pc) rest
         \<and> ((\<forall>(k, x) \<in> set vars. x \<noteq> NotArr \<longrightarrow> \<not> (\<exists>pre post. pc = pre @ placeholder k @ post))
              \<longrightarrow> processTemplate co (Some pc) vars = Inr (Some pc))"
proof -
  from pick_member [OF assms(1,2,3)] obtain v where
    v: "v \<in> set vs" "pick (math_random co n) vs = Some v"
    by blast
  with assms(4) have plain: "\<not> has_replacement_pattern v"
    by blast
  have first: "processTemplate_loop co n (Some pc) ((key, Arr vs) # rest)
               = processTemplate_loop co (Suc n) (Some (pre @ v @ post)) rest"
    if "pc = pre @ placeholder key @ post"
      and "\<forall>pre' post'. pc = pre' @ placeholder key @ post' \<longrightarrow> length pre \<le> length pre'"
    for pre post
    using js_replace_first [OF that plain] v(2)
    by (simp add: show_opt_def)
  have absent: "processTemplate_loop co n (Some pc) ((key, Arr vs) # rest)
                = processTemplate_loop co (Suc n) (Some pc) rest"
    if "\<not> (\<exists>pre post. pc = pre @ placeholder key @ post)"
    using js_replace_absent [OF that] by simp
  have untouched: "processTemplate co (Some pc) vars = Inr (Some pc)"
    if "\<forall>(k, x) \<in> set vars. x \<noteq> NotArr \<longrightarrow> \<not> (\<exists>pre post. pc = pre @ placeholder k @ post)"
    using processTemplate_loop_untouched [OF that] by (simp add: processTemplate_def)
  from v(1) first absent untouched show ?thesis
    by (intro bexI [of _ v]) auto
qed

theorem processTemplate_first_occurrence_witness:
  "0 \<le> math_random co_ok 0 \<and> math_random co_ok 0 < 1
   \<and> [''$5 off'', ''Bob''] \<noteq> []
   \<and> \<not> has_replacement_pattern ''$5 off'' \<and> \<not> has_replacement_pattern ''Bob''
   \<and> (\<exists>v \<in> set [''$5 off'', ''Bob''].
         processTemplate_loop co_ok 0 (Some ''Hi {name}, {name}! {mood}'')
           ((''name'', Arr [''$5 off'', ''Bob'']) # [(''mood'', NotArr)])
         = processTemplate_loop co_ok (Suc 0) (Some (''Hi '' @ v @ '', {name}! {mood}''))
             [(''mood'', NotArr)])
   \<and> processTemplate co_ok (Some ''Hi {name}, {name}! {mood}'')
        [(''name'', Arr [''$5 off'', ''Bob'']), (''mood'', NotArr)]
       = Inr (Some ''Hi $5 off, {name}! {mood}'')
   \<and> processTemplate co_ok (Some ''Hi {name}, {name}! {mood}'')
        [(''mood'', NotArr), (''city'', Arr [''Oslo''])]
       = Inr (Some ''Hi {name}, {name}! {mood}'')"
proof -
  let ?pc = "''Hi {name}, {name}! {mood}''"
  let ?vs = "[''$5 off'', ''Bob'']"
  let ?vars = "[(''mood'', NotArr), (''city'', Arr [''Oslo''])]"
  have h1: "0 \<le> math_random co_ok 0" and h2: "math_random co_ok 0 < 1"
    by (simp_all add: co_ok_def)
  have h3: "?vs \<noteq> []"
    by simp
  have plain: "\<not> has_replacement_pattern ''$5 off'' \<and> \<not> has_replacement_pattern ''Bob''"
    by simp
  then have h4: "\<forall>v \<in> set ?vs. \<not> has_replacement_pattern v"
    by simp
  have sp: "split_at_first (placeholder ''name'') ?pc = Some (''Hi '', '', {name}! {mood}'')"
    by code_simp
  have occ: "?pc = ''Hi '' @ placeholder ''name'' @ '', {name}! {mood}''"
    by (simp add: placeholder_def)
  have least: "\<forall>pre' post'. ?pc = pre' @ placeholder ''name'' @ post'
                 \<longrightarrow> length ''Hi '' \<le> length pre'"
    using split_at_first_least [OF sp] by blast
  have "split_at_first (placeholder ''city'') ?pc = None"
    by code_simp
  then have nocity: "\<not> (\<exists>pre post. ?pc = pre @ placeholder ''city'' @ post)"
    using split_at_first_complete [of ?pc _ "placeholder ''city''"] by blast
  then have un: "\<forall>(k, x) \<in> set ?vars. x \<noteq> NotArr
                   \<longrightarrow> \<not> (\<exists>pre post. ?pc = pre @ placeholder k @ post)"
    by simp
  have whole: "processTemplate co_ok (Some ?pc) [(''name'', Arr ?vs), (''mood'', NotArr)]
               = Inr (Some ''Hi $5 off, {name}! {mood}'')"
    by code_simp
  from processTemplate_first_occurrence
         [OF h1 h2 h3 h4, of ?pc "''name''" "[(''mood'', NotArr)]" ?vars]
  obtain v where v: "v \<in> set ?vs"
    and first: "\<forall>pre post.
              ?pc = pre @ placeholder ''name'' @ post
              \<and> (\<forall>pre' post'. ?pc = pre' @ placeholder ''name'' @ post'
                    \<longrightarrow> length pre \<le> length pre')
              \<longrightarrow> processTemplate_loop co_ok 0 (Some ?pc)
                    ((''name'', Arr ?vs) # [(''mood'', NotArr)])
                  = processTemplate_loop co_ok (Suc 0) (Some (pre @ v @ post))
                      [(''mood'', NotArr)]"
    and all: "(\<forall>(k, x) \<in> set ?vars. x \<noteq> NotArr
                 \<longrightarrow> \<not> (\<exists>pre post. ?pc = pre @ placeholder k @ post))
              \<longrightarrow> processTemplate co_ok (Some ?pc) ?vars = Inr (Some ?pc)"
    by blast
  from first occ least have
    "processTemplate_loop co_ok 0 (Some ?pc)
       ((''name'', Arr ?vs) # [(''mood'', NotArr)])
     = processTemplate_loop co_ok (Suc 0) (Some (''Hi '' @ v @ '', {name}! {mood}''))
         [(''mood'', NotArr)]"
    by blast
  with v all un h1 h2 h3 plain whole show ?thesis
    by blast
qed

text \<open>
  C10 as stated fails. With an empty candidate array the placeholder is
  replaced by the text \<^verbatim>\<open>undefined\<close>, which is no candidate; a candidate with
  the patterns \<^verbatim>\<open>$$\<close> and \<^verbatim>\<open>$&\<close> is expanded, not inserted as it is; and a
  candidate that contains the placeholder of a later variable is changed by
  that variable while the original placeholder stays.
\<close>

theorem processTemplate_counterexample:
  "processTemplate co_ok (Some ''Hello {name}!'') [(''name'', Arr [])]
   = Inr (Some ''Hello undefined!'')
   \<and> processTemplate co_ok (Some ''Price: {p}'') [(''p'', Arr [''$$5 ($&)''])]
     = Inr (Some ''Price: $5 ({p})'')
   \<and> processTemplate co_ok (Some ''{a} and {b}'') [(''a'', Arr [''{b}'']), (''b'', Arr [''x''])]
     = Inr (Some ''x and {b}'')"
  by code_simp

subsection \<open>The trigger converter\<close>















subsection \<open>Validation at startup\<close>

lemma filter_invalid_empty:
  "filter (\<lambda>p. p \<notin> set [''facebook'', ''instagram'']) ps = []
   \<longleftrightarrow> list_all (\<lambda>p. p = ''facebook'' \<or> p = ''instagram'') ps"
  by (induction ps) auto

lemma validatePlatforms_ok:
  "ps \<noteq> [] \<Longrightarrow> fst (validatePlatforms ps) \<longleftrightarrow> list_all (\<lambda>p. p = ''facebook'' \<or> p = ''instagram'') ps"
  using filter_invalid_empty [of ps]
  by (simp add: validatePlatforms_def Let_def)

lemma fileReader_posts_ok:
  "fileReader_posts ps i = Inr () \<longleftrightarrow> list_all basic_accepted ps"
proof (induction ps arbitrary: i)
  case Nil
  then show ?case by simp
next
  case (Cons post rest)
  show ?case
  proof (cases "platforms post")
    case None
    then show ?thesis
      by (simp add: basic_accepted_def platforms_accepted_def)
  next
    case (Some ps)
    then show ?thesis
      using Cons.IH [of "Suc i"] filter_invalid_empty [of ps]
      by (simp add: basic_accepted_def platforms_accepted_def Let_def)
  qed
qed

lemma validateDateTime_ok:
  "truthy (scheduledTime post) \<Longrightarrow>
   fst (validateDateTime co (scheduledTime post) (timezone post)) \<longleftrightarrow> time_accepted co post"
  by (auto simp: validateDateTime_def time_accepted_def Let_def split: option.splits)

lemma verdict_errors_empty:
  "(case r of (ok, err) \<Rightarrow> if \<not> ok then [f err] else []) = [] \<longleftrightarrow> fst r"
  by (cases r) simp

lemma imageErrors_empty:
  "imageErrors idx imgs = [] \<longleftrightarrow> list_all (\<lambda>image. image \<noteq> NonString) imgs"
proof -
  have "imageErrors idx imgs = []
        \<longleftrightarrow> (\<forall>x \<in> set (enumerate 0 imgs). snd x \<noteq> NonString)"
    by (auto simp: imageErrors_def split: imageRef.splits prod.splits)
  also have "\<dots> \<longleftrightarrow> (\<forall>image \<in> snd ` set (enumerate 0 imgs). image \<noteq> NonString)"
    by auto
  also have "snd ` set (enumerate 0 imgs) = set imgs"
    by (metis list.set_map map_snd_enumerate)
  finally show ?thesis
    by (simp add: list_all_iff)
qed

lemma known_platform_limit:
  "p = ''facebook'' \<or> p = ''instagram'' \<Longrightarrow> \<exists>limit. maxTextLength p = Some limit"
  by (auto simp: maxTextLength_def)

lemma validateTextContent_ok:
  "c \<noteq> [] \<Longrightarrow> p = ''facebook'' \<or> p = ''instagram'' \<Longrightarrow>
   fst (validateTextContent c p)
   \<longleftrightarrow> (case maxTextLength p of None \<Rightarrow> False | Some limit \<Rightarrow> int (length c) \<le> limit)"
  using known_platform_limit [of p]
  by (auto simp: validateTextContent_def platformLimits_def Let_def split: if_splits)

lemma contentErrors_empty:
  "c \<noteq> [] \<Longrightarrow> list_all (\<lambda>p. p = ''facebook'' \<or> p = ''instagram'') ps \<Longrightarrow>
   contentErrors idx c ps = []
   \<longleftrightarrow> list_all (\<lambda>p. case maxTextLength p of None \<Rightarrow> False
                        | Some limit \<Rightarrow> int (length c) \<le> limit) ps"
proof -
  assume c: "c \<noteq> []" and known: "list_all (\<lambda>p. p = ''facebook'' \<or> p = ''instagram'') ps"
  have "contentErrors idx c ps = [] \<longleftrightarrow> (\<forall>p \<in> set ps. fst (validateTextContent c p))"
    by (simp add: contentErrors_def verdict_errors_empty)
  also have "\<dots> \<longleftrightarrow> (\<forall>p \<in> set ps. case maxTextLength p of None \<Rightarrow> False
                                     | Some limit \<Rightarrow> int (length c) \<le> limit)"
    using known validateTextContent_ok [OF c] by (simp add: list_all_iff)
  finally show ?thesis
    by (simp add: list_all_iff)
qed

lemma truthy_the: "truthy v \<Longrightarrow> the v \<noteq> []"
  by (cases v) (simp_all add: truthy_def)

lemma validateSchedulePost_empty:
  "validateSchedulePost co post index = [] \<longleftrightarrow> post_accepted co post"
proof (cases "platforms post")
  case None
  then show ?thesis
    by (simp add: validateSchedulePost_def Let_def post_accepted_def basic_accepted_def
                  platforms_accepted_def)
next
  case (Some ps)
  show ?thesis
  proof (cases "ps = [] \<or> \<not> truthy (scheduledTime post)")
    case True
    with Some show ?thesis
      by (auto simp: validateSchedulePost_def Let_def post_accepted_def basic_accepted_def
                    platforms_accepted_def)
  next
    case False
    then have ne: "ps \<noteq> []" and st: "truthy (scheduledTime post)"
      by simp_all
    have imgs: "(case images post of None \<Rightarrow> [] | Some imgs \<Rightarrow> imageErrors idx imgs) = []
                \<longleftrightarrow> list_all (\<lambda>image. image \<noteq> NonString)
                      (case images post of None \<Rightarrow> [] | Some imgs \<Rightarrow> imgs)" for idx
      by (cases "images post") (simp_all add: imageErrors_empty)
    show ?thesis
    proof (cases "truthy (content post)")
      case True
      show ?thesis
      proof (cases "list_all (\<lambda>p. p = ''facebook'' \<or> p = ''instagram'') ps")
        case known: True
        note ce = contentErrors_empty [OF truthy_the [OF True] known]
        from True Some ne st imgs known show ?thesis
          by (simp add: validateSchedulePost_def Let_def post_accepted_def basic_accepted_def
                        platforms_accepted_def extras_accepted_def verdict_errors_empty
                        validatePlatforms_ok validateDateTime_ok ce conj_ac)
      next
        case unknown: False
        with True Some ne st show ?thesis
          by (simp add: validateSchedulePost_def Let_def post_accepted_def basic_accepted_def
                        platforms_accepted_def verdict_errors_empty validatePlatforms_ok)
      qed
    next
      case nc: False
      with Some ne st imgs show ?thesis
        by (simp add: validateSchedulePost_def Let_def post_accepted_def basic_accepted_def
                      platforms_accepted_def extras_accepted_def verdict_errors_empty
                      validatePlatforms_ok validateDateTime_ok conj_ac)
    qed
  qed
qed

lemma posts_errors_empty:
  "concat (map (\<lambda>(index, post). validateSchedulePost co post index) (enumerate n ps)) = []
   \<longleftrightarrow> list_all (post_accepted co) ps"
  by (induction ps arbitrary: n) (simp_all add: validateSchedulePost_empty)

lemma validateScheduleSettings_empty:
  "validateScheduleSettings co st = [] \<longleftrightarrow> settings_accepted co (Some st)"
  by (simp add: validateScheduleSettings_def settings_accepted_def)

lemma validateScheduleConfig_valid:
  "fst (validateScheduleConfig co cfg)
   \<longleftrightarrow> (case posts cfg of
         None \<Rightarrow> False
       | Some ps \<Rightarrow> list_all (post_accepted co) ps \<and> settings_accepted co (doc_settings cfg))"
proof (cases "posts cfg")
  case None
  then show ?thesis by (simp add: validateScheduleConfig_def)
next
  case (Some ps)
  then show ?thesis
    by (cases "doc_settings cfg")
       (simp_all add: validateScheduleConfig_def Let_def posts_errors_empty
                      validateScheduleSettings_empty settings_accepted_def
                 del: concat_eq_Nil_conv)
qed

lemma post_accepted_basic: "list_all (post_accepted co) ps \<Longrightarrow> list_all basic_accepted ps"
  by (simp add: list_all_iff post_accepted_def)

text \<open>
  C7, as the code has it. The start accepts a document, and hands it on
  unchanged, exactly when \<^verbatim>\<open>posts\<close> is an array, every post has content or a
  file, a scheduled time and a non-empty list of platforms among facebook and
  instagram, and moreover its scheduled time parses, is not in the past and
  names a known zone, its images are strings, its inline content fits every
  platform, and the settings are valid. The recurring descriptors have no part
  in the verdict.
\<close>

theorem loadScheduleConfig_accepts:
  "(loadScheduleConfig co cfg = Inr cfg
    \<longleftrightarrow> (case posts cfg of
          None \<Rightarrow> False
        | Some ps \<Rightarrow> list_all (post_accepted co) ps \<and> settings_accepted co (doc_settings cfg)))
   \<and> (\<forall>d. loadScheduleConfig co cfg = Inr d \<longrightarrow> d = cfg)
   \<and> (loadScheduleConfig co (cfg\<lparr>recurring := r\<rparr>) = Inr (cfg\<lparr>recurring := r\<rparr>)
       \<longleftrightarrow> loadScheduleConfig co cfg = Inr cfg)"
proof -
  have acc: "loadScheduleConfig co c = Inr c
             \<longleftrightarrow> (case posts c of
                   None \<Rightarrow> False
                 | Some ps \<Rightarrow> list_all (post_accepted co) ps \<and> settings_accepted co (doc_settings c))"
    for c
  proof (cases "posts c")
    case None
    then show ?thesis
      by (simp add: loadScheduleConfig_def fileReader_validateScheduleConfig_def)
  next
    case (Some ps)
    show ?thesis
    proof (cases "list_all basic_accepted ps")
      case True
      then have "fileReader_posts ps 0 = Inr ()"
        by (simp add: fileReader_posts_ok)
      with Some validateScheduleConfig_valid [of co c] show ?thesis
        by (cases "validateScheduleConfig co c")
           (auto simp: loadScheduleConfig_def fileReader_validateScheduleConfig_def)
    next
      case False
      then have "fileReader_posts ps 0 \<noteq> Inr ()"
        by (simp add: fileReader_posts_ok)
      then obtain e where "fileReader_posts ps 0 = Inl e"
        by (cases "fileReader_posts ps 0") auto
      with Some False post_accepted_basic [of co ps] show ?thesis
        by (auto simp: loadScheduleConfig_def fileReader_validateScheduleConfig_def)
    qed
  qed
  have same: "loadScheduleConfig co cfg = Inr d \<longrightarrow> d = cfg" for d
    by (auto simp: loadScheduleConfig_def split: sum.splits prod.splits if_splits)
  from acc [of cfg] acc [of "cfg\<lparr>recurring := r\<rparr>"] same show ?thesis
    by (cases "posts cfg") simp_all
qed


theorem loadScheduleConfig_accepts_witness:
  "(case posts morning_document of
      None \<Rightarrow> False
    | Some ps \<Rightarrow> list_all (post_accepted co_ok) ps
                 \<and> settings_accepted co_ok (doc_settings morning_document))
   \<and> loadScheduleConfig co_ok morning_document = Inr morning_document
   \<and> loadScheduleConfig co_ok (morning_document\<lparr>recurring := None\<rparr>)
       = Inr (morning_document\<lparr>recurring := None\<rparr>)"
proof -
  have h: "case posts morning_document of
             None \<Rightarrow> False
           | Some ps \<Rightarrow> list_all (post_accepted co_ok) ps
                        \<and> settings_accepted co_ok (doc_settings morning_document)"
    by code_simp
  from loadScheduleConfig_accepts [of co_ok morning_document None] h
  show ?thesis
    by blast
qed

text \<open>
  C7 as stated fails in both directions. A document whose recurring
  descriptor has an empty platform list, no content, no file and neither a
  time nor a pattern is accepted; and a document whose only post has
  platforms, content and a scheduled time is rejected when that time is in
  the past.
\<close>

theorem loadScheduleConfig_counterexample:
  "recurring morning_document = Some [empty_template]
   \<and> platforms empty_template = Some []
   \<and> loadScheduleConfig co_ok morning_document = Inr morning_document
   \<and> list_all basic_accepted [morning_post]
   \<and> loadScheduleConfig co_late
        \<lparr>posts = Some [morning_post], recurring = None, doc_settings = None\<rparr>
       = Inl (Error ''Invalid schedule configuration: Post 0: Scheduled time must be in the future'')"
  by code_simp

subsection \<open>The priority label\<close>

lemma update_map_values:
  "map (\<lambda>(k, v). (k, f v)) (AList.update k v al)
   = AList.update k (f v) (map (\<lambda>(k, v). (k, f v)) al)"
  by (induction al) auto

lemma delete_map_values:
  "map (\<lambda>(k, v). (k, f v)) (AList.delete k al) = AList.delete k (map (\<lambda>(k, v). (k, f v)) al)"
  by (induction al) auto

lemma map_of_map_values:
  "map_of (map (\<lambda>(k, v). (k, f v)) al) k = map_option f (map_of al k)"
  by (induction al) auto

lemma running_callback_commute:
  "t\<lparr>running := b, task_callback := c\<rparr> = t\<lparr>task_callback := c, running := b\<rparr>"
  by (cases t) simp

lemma task_stop_map:
  "map (\<lambda>t. t\<lparr>task_callback := g (task_callback t)\<rparr>) (task_stop h ts)
   = task_stop h (map (\<lambda>t. t\<lparr>task_callback := g (task_callback t)\<rparr>) ts)"
  by (simp add: task_stop_def map_update running_callback_commute)

lemma task_start_map:
  "map (\<lambda>t. t\<lparr>task_callback := g (task_callback t)\<rparr>) (task_start h ts)
   = task_start h (map (\<lambda>t. t\<lparr>task_callback := g (task_callback t)\<rparr>) ts)"
  by (simp add: task_start_def map_update running_callback_commute)

lemma forget_removeOneTime:
  "forget_app (removeOneTime s jobId) = removeOneTime (forget_app s) jobId"
  by (cases "map_of (cronJobs s) jobId")
     (simp_all add: removeOneTime_def forget_app_def map_of_map_values delete_map_values
                    task_stop_map)

lemma forget_fields:
  "content (forget_priority cfg) = content cfg"
  "post_file (forget_priority cfg) = post_file cfg"
  "platforms (forget_priority cfg) = platforms cfg"
  "images (forget_priority cfg) = images cfg"
  "scheduledTime (forget_priority cfg) = scheduledTime cfg"
  "cronPattern (forget_priority cfg) = cronPattern cfg"
  "timezone (forget_priority cfg) = timezone cfg"
  "post_id (forget_priority cfg) = post_id cfg"
  "variables (forget_priority cfg) = variables cfg"
  by (simp_all add: forget_priority_def)

lemma forget_flag: "isShuttingDown (forget_app s) = isShuttingDown s"
  by (simp add: forget_app_def)

lemma forget_begin:
  "forget_app (executePost_begin co s jobId cfg)
   = executePost_begin co (forget_app s) jobId (forget_priority cfg)"
  by (simp add: executePost_begin_def forget_app_def update_map_values)

lemma forget_pass: "executePost_pass co (forget_priority cfg) = executePost_pass co cfg"
  by (simp add: executePost_pass_def loadContent_def forget_fields
           cong: sum.case_cong option.case_cong)

lemma forget_try:
  "executePost_try co (forget_app s) jobId (forget_priority cfg)
   = (case executePost_try co s jobId cfg of
        Inl e \<Rightarrow> Inl e
      | Inr (s1, ex) \<Rightarrow> Inr (forget_app s1, ex))"
  by (simp add: executePost_try_def forget_pass forget_removeOneTime split: sum.splits)

lemma forget_release:
  "forget_app (s\<lparr>activeJobs := AList.delete jobId (activeJobs s)\<rparr>)
   = (forget_app s)\<lparr>activeJobs := AList.delete jobId (activeJobs (forget_app s))\<rparr>"
  by (simp add: forget_app_def delete_map_values)

lemma forget_complete:
  "executePost_complete co (forget_app s) jobId (forget_priority cfg)
   = (case executePost_complete co s jobId cfg of (s1, ex) \<Rightarrow> (forget_app s1, ex))"
  by (simp add: executePost_complete_def forget_try forget_release
           split: sum.splits error.splits prod.splits)

lemma forget_executePost:
  "executePost co (forget_app s) jobId (forget_priority cfg)
   = (case executePost co s jobId cfg of (s1, r) \<Rightarrow> (forget_app s1, r))"
  by (simp add: executePost_def forget_flag forget_begin [symmetric] forget_complete
           split: prod.splits)

lemma forget_arm:
  "forget_app (arm co s jobId expr cb cfg ty)
   = arm co (forget_app s) jobId expr (forget_callback cb) (forget_priority cfg) ty"
  by (simp add: arm_def Let_def forget_fields forget_app_def update_map_values task_start_map)

lemma forget_schedulePost:
  "forget_app (schedulePost co s cfg) = schedulePost co (forget_app s) (forget_priority cfg)"
  by (simp add: schedulePost_def Let_def forget_arm post_jobId_def forget_fields)

lemma forget_scheduleRecurringPost:
  "forget_app (scheduleRecurringPost co s cfg)
   = scheduleRecurringPost co (forget_app s) (forget_priority cfg)"
  by (simp add: scheduleRecurringPost_def Let_def forget_arm forget_fields split: option.splits)

lemma forget_foldl_posts:
  "forget_app (foldl (schedulePost co) s ps)
   = foldl (schedulePost co) (forget_app s) (map forget_priority ps)"
  by (induction ps arbitrary: s) (simp_all add: forget_schedulePost)

lemma forget_foldl_recurring:
  "forget_app (foldl (scheduleRecurringPost co) s ps)
   = foldl (scheduleRecurringPost co) (forget_app s) (map forget_priority ps)"
  by (induction ps arbitrary: s) (simp_all add: forget_scheduleRecurringPost)

lemma forget_startMaintenanceJobs:
  "forget_app (startMaintenanceJobs s) = startMaintenanceJobs (forget_app s)"
  by (simp add: startMaintenanceJobs_def Let_def forget_app_def update_map_values task_start_map)

lemma forget_startScheduler:
  "forget_app (startScheduler co s d) = startScheduler co (forget_app s) (forget_document d)"
  by (cases "posts d"; cases "recurring d")
     (simp_all add: startScheduler_def Let_def forget_document_def forget_startMaintenanceJobs
                    forget_foldl_posts forget_foldl_recurring)


lemma forget_validateSchedulePost:
  "validateSchedulePost co (forget_priority post) index = validateSchedulePost co post index"
  by (simp add: validateSchedulePost_def forget_fields cong: if_cong option.case_cong)

lemma forget_posts_errors:
  "concat (map (\<lambda>(index, post). validateSchedulePost co post index)
               (enumerate n (map forget_priority ps)))
   = concat (map (\<lambda>(index, post). validateSchedulePost co post index) (enumerate n ps))"
  by (induction ps arbitrary: n) (simp_all add: forget_validateSchedulePost)

lemma forget_validateScheduleConfig:
  "validateScheduleConfig co (forget_document d) = validateScheduleConfig co d"
  by (cases "posts d")
     (simp_all add: validateScheduleConfig_def forget_document_def forget_posts_errors)

lemma forget_fileReader_posts:
  "fileReader_posts (map forget_priority ps) i = fileReader_posts ps i"
  by (induction ps arbitrary: i) (simp_all add: forget_fields Let_def split: option.splits)

lemma forget_loadScheduleConfig:
  "loadScheduleConfig co (forget_document d)
   = (case loadScheduleConfig co d of Inl e \<Rightarrow> Inl e | Inr x \<Rightarrow> Inr (forget_document x))"
proof -
  have "fileReader_validateScheduleConfig (forget_document d) = fileReader_validateScheduleConfig d"
    by (cases "posts d")
       (simp_all add: fileReader_validateScheduleConfig_def forget_document_def
                      forget_fileReader_posts)
  then show ?thesis
    by (simp add: loadScheduleConfig_def forget_validateScheduleConfig
             split: sum.splits prod.splits)
qed

lemma forget_recurring_config:
  "forget_priority (cfg\<lparr>content := c, post_id := i\<rparr>)
   = (forget_priority cfg)\<lparr>content := c, post_id := i\<rparr>"
  by (cases cfg) (simp add: forget_priority_def)

lemma forget_executeRecurringPost:
  "executeRecurringPost co (forget_app s) jobId (forget_priority cfg)
   = (case executeRecurringPost co s jobId cfg of
        Inl e \<Rightarrow> Inl e
      | Inr (s1, r) \<Rightarrow> Inr (forget_app s1, r))"
  by (simp add: executeRecurringPost_def forget_fields forget_recurring_config [symmetric]
                forget_executePost
           split: sum.splits option.splits prod.splits)

lemma forget_fire:
  "fire co (forget_app s) (forget_callback cb)
   = (case fire co s cb of Inl e \<Rightarrow> Inl e | Inr (s1, r) \<Rightarrow> Inr (forget_app s1, r))"
  by (cases cb)
     (simp_all add: fire_def forget_executePost forget_executeRecurringPost
               split: sum.splits prod.splits)

text \<open>
  C9. Two runs whose documents, applications and fired callbacks agree up to
  the priority labels behave alike: validation gives the same verdict, the
  scheduler arms the same triggers and builds the same registry, and a task
  that fires executes at once with the same outcome and the same resulting
  state, all up to the labels. An execution itself does not depend on the
  label of its configuration at all.
\<close>

theorem priority_noninterference:
  assumes "forget_document d = forget_document d'"
    and "forget_app s = forget_app s'"
    and "forget_callback cb = forget_callback cb'"
  shows "(case loadScheduleConfig co d of Inl e \<Rightarrow> Inl e | Inr x \<Rightarrow> Inr (forget_document x))
         = (case loadScheduleConfig co d' of Inl e \<Rightarrow> Inl e | Inr x \<Rightarrow> Inr (forget_document x))
       \<and> forget_app (startScheduler co s d) = forget_app (startScheduler co s' d')
       \<and> (case fire co s cb of Inl e \<Rightarrow> Inl e | Inr (s1, r) \<Rightarrow> Inr (forget_app s1, r))
         = (case fire co s' cb' of Inl e \<Rightarrow> Inl e | Inr (s1, r) \<Rightarrow> Inr (forget_app s1, r))
       \<and> executePost co s jobId (cfg\<lparr>priority := p\<rparr>) = executePost co s jobId cfg"
proof (intro conjI)
  show "(case loadScheduleConfig co d of Inl e \<Rightarrow> Inl e | Inr x \<Rightarrow> Inr (forget_document x))
        = (case loadScheduleConfig co d' of Inl e \<Rightarrow> Inl e | Inr x \<Rightarrow> Inr (forget_document x))"
    using forget_loadScheduleConfig [of co d] forget_loadScheduleConfig [of co d'] assms(1)
    by simp
  show "forget_app (startScheduler co s d) = forget_app (startScheduler co s' d')"
    by (simp add: forget_startScheduler assms)
  show "(case fire co s cb of Inl e \<Rightarrow> Inl e | Inr (s1, r) \<Rightarrow> Inr (forget_app s1, r))
        = (case fire co s' cb' of Inl e \<Rightarrow> Inl e | Inr (s1, r) \<Rightarrow> Inr (forget_app s1, r))"
    using forget_fire [of co s cb] forget_fire [of co s' cb'] assms(2,3)
    by simp
  have pass: "executePost_pass co (cfg\<lparr>priority := p\<rparr>) = executePost_pass co cfg"
    by (simp add: executePost_pass_def loadContent_def cong: sum.case_cong option.case_cong)
  have "executePost_complete co (executePost_begin co s jobId (cfg\<lparr>priority := p\<rparr>)) jobId
          (cfg\<lparr>priority := p\<rparr>)
        = executePost_complete co (executePost_begin co s jobId cfg) jobId cfg"
    by (simp add: executePost_complete_def executePost_try_def pass
                  executePost_begin_def removeOneTime_def AList.delete_update_same
             split: sum.splits error.splits option.splits)
  then show "executePost co s jobId (cfg\<lparr>priority := p\<rparr>) = executePost co s jobId cfg"
    by (simp add: executePost_def)
qed


theorem priority_noninterference_witness:
  "forget_document morning_document = forget_document low_priority_document
   \<and> forget_app initial_app = forget_app initial_app
   \<and> forget_callback (ExecutePost ''post_morning_post'' morning_post)
       = forget_callback (ExecutePost ''post_morning_post'' low_priority_post)
   \<and> priority morning_post \<noteq> priority low_priority_post
   \<and> forget_app (startScheduler co_ok initial_app morning_document)
       = forget_app (startScheduler co_ok initial_app low_priority_document)
   \<and> executePost co_ok initial_app ''post_morning_post'' (morning_post\<lparr>priority := Some ''low''\<rparr>)
       = executePost co_ok initial_app ''post_morning_post'' morning_post"
proof -
  have h1: "forget_document morning_document = forget_document low_priority_document"
    by (simp add: forget_document_def morning_document_def low_priority_document_def
                  low_priority_post_def forget_priority_def)
  have h2: "forget_app initial_app = forget_app initial_app"
    by simp
  have h3: "forget_callback (ExecutePost ''post_morning_post'' morning_post)
            = forget_callback (ExecutePost ''post_morning_post'' low_priority_post)"
    by (simp add: low_priority_post_def forget_priority_def)
  have d: "priority morning_post \<noteq> priority low_priority_post"
    by (simp add: low_priority_post_def morning_post_def)
  from priority_noninterference
         [OF h1 h2 h3, where co = co_ok and jobId = "''post_morning_post''"
            and cfg = morning_post and p = "Some ''low''"]
       h1 h2 h3 d
  show ?thesis
    by blast
qed

end
